theory Spec2Isabelle
  imports Main "HOL-Library.Char_ord" "HOL-Library.List_Lexorder"
begin

section \<open>Strings\<close>

text \<open>
  A Python \<open>str\<close> is modelled as a \<open>string\<close> in which every \<open>char\<close> stands for one
  code point below 256, so \<open>take\<close> and \<open>length\<close> count what Python's slicing counts.
  \<open>isspace\<close> lists the code points below 256 that \<open>str.strip()\<close> removes.
\<close>

definition isspace :: "char \<Rightarrow> bool" where
  "isspace c =
     (let n = (of_char c :: nat)
      in (9 \<le> n \<and> n \<le> 13) \<or> (28 \<le> n \<and> n \<le> 32) \<or> n = 133 \<or> n = 160)"

definition strip :: "string \<Rightarrow> string" where
  "strip s = rev (dropWhile isspace (rev (dropWhile isspace s)))"

text \<open>\<open>sep.join(parts)\<close>.\<close>

fun join :: "string \<Rightarrow> string list \<Rightarrow> string" where
  "join sep [] = []"
| "join sep [p] = p"
| "join sep (p # q # ps) = p @ sep @ join sep (q # ps)"

text \<open>\<open>needle in haystack\<close> on strings.\<close>

fun contains :: "string \<Rightarrow> string \<Rightarrow> bool" where
  "contains [] needle = (needle = [])"
| "contains (c # cs) needle = (take (length needle) (c # cs) = needle \<or> contains cs needle)"

section \<open>Parsed markup\<close>

text \<open>
  The scrapers only ever ask a parsed document or element for its text nodes, for its
  serialisation, for an attribute, for the first element matching a selector, and for
  all elements matching a selector. An element is therefore modelled by the answers it
  gives:
  \<^item> \<open>strings\<close>: the text nodes below it, in document order (\<open>.text\<close> is their
    concatenation, \<open>find_all(string=True)\<close> is the list itself, \<open>find(string=s)\<close>
    succeeds when \<open>s\<close> is one of them);
  \<^item> \<open>render\<close>: its serialisation, keyed by the method (\<open>''prettify''\<close> for
    \<open>tag.prettify()\<close>, \<open>''str''\<close> for \<open>str(tag)\<close>); the scrapers format it into log
    messages, and it may raise like a lookup;
  \<^item> \<open>attrs\<close>: its attributes (\<open>'href' in tag.attrs\<close>, \<open>tag['href']\<close>);
  \<^item> \<open>find1\<close>: the single-element lookups \<open>select_one\<close>, \<open>find\<close> and
    \<open>find_next_sibling\<close>, keyed by the selector text; such a lookup may raise, and
    \<open>Inl msg\<close> carries \<open>str(e)\<close> of the exception;
  \<^item> \<open>select\<close>: \<open>select\<close> and \<open>find_all\<close> for elements, keyed the same way.
\<close>

type_synonym exn = string

datatype tag =
  Tag (strings: "string list") (render: "string \<Rightarrow> exn + string")
      (attrs: "string \<rightharpoonup> string")
      (find1: "string \<Rightarrow> exn + tag option") (select: "string \<Rightarrow> tag list")

definition tag_text :: "tag \<Rightarrow> string" where
  "tag_text t = concat (strings t)"

text \<open>A stored row: \<open>(Fecha, Descripcion, Precio)\<close>.\<close>

type_synonym row = "string \<times> string \<times> string"

definition NO_DISPONIBLE :: string where
  "NO_DISPONIBLE = ''No disponible''"

text \<open>The row appended by the \<open>except Exception as e\<close> handler of scrapers 3, 4 and 5:
  \<open>(fecha_actual, f"Error en parseo - {product_name}", str(e)[:50])\<close>.\<close>

definition error_row :: "string \<Rightarrow> string \<Rightarrow> exn \<Rightarrow> row" where
  "error_row fecha_actual product_name e =
     (fecha_actual, ''Error en parseo - '' @ product_name, take 50 e)"

text \<open>The loop \<open>for selector in price_selectors: price_element = product_div.select_one(selector);
  if price_element: break\<close>, started with \<open>price_element = None\<close>.\<close>

fun price_cascade :: "tag \<Rightarrow> string list \<Rightarrow> exn + tag option" where
  "price_cascade product_div [] = Inr None"
| "price_cascade product_div (selector # rest) =
     (case find1 product_div selector of
        Inl e \<Rightarrow> Inl e
      | Inr (Some price_element) \<Rightarrow> Inr (Some price_element)
      | Inr None \<Rightarrow> price_cascade product_div rest)"

section \<open>3iluminar.py: process_products_from_soup\<close>

definition iluminar_product_selector :: string where
  "iluminar_product_selector = ''div.product-small.col.has-hover.product''"

definition iluminar_name_selector :: string where
  "iluminar_name_selector = ''p.name.product-title.woocommerce-loop-product__title > a''"

definition iluminar_price_selectors :: "string list" where
  "iluminar_price_selectors =
     [''div.price-wrapper span.price ins span.woocommerce-Price-amount.amount bdi'',
      ''div.price-wrapper span.price span.woocommerce-Price-amount.amount bdi'',
      ''div.price-wrapper span.price bdi'',
      ''div.price-wrapper bdi'',
      ''span.woocommerce-Price-amount.amount bdi'']"

text \<open>
  The body of the \<open>try\<close> for one product node. \<open>Inr row\<close> is the row appended at the end of
  the body; \<open>Inl (e, product_name)\<close> is an exception together with the value
  \<open>product_name\<close> holds when it is raised. The two \<open>logging.warning\<close> calls format a
  further \<open>select_one\<close> into their message, which is evaluated (and may raise) before
  the call.
\<close>

definition iluminar_try_item :: "string \<Rightarrow> tag \<Rightarrow> (exn \<times> string) + row" where
  "iluminar_try_item fecha_actual product_div =
     (case find1 product_div iluminar_name_selector of
        Inl e \<Rightarrow> Inl (e, NO_DISPONIBLE)
      | Inr name_element \<Rightarrow>
          (case (case name_element of
                   Some el \<Rightarrow> Inr (strip (tag_text el))
                 | None \<Rightarrow>
                     (case find1 product_div ''p.name.product-title.woocommerce-loop-product__title'' of
                        Inl e \<Rightarrow> Inl (e, NO_DISPONIBLE)
                      | Inr _ \<Rightarrow> Inr NO_DISPONIBLE)) of
             Inl ex \<Rightarrow> Inl ex
           | Inr product_name \<Rightarrow>
               (case price_cascade product_div iluminar_price_selectors of
                  Inl e \<Rightarrow> Inl (e, product_name)
                | Inr (Some price_element) \<Rightarrow>
                    Inr (fecha_actual, product_name, strip (tag_text price_element))
                | Inr None \<Rightarrow>
                    (case find1 product_div ''div.price-wrapper'' of
                       Inl e \<Rightarrow> Inl (e, product_name)
                     | Inr _ \<Rightarrow> Inr (fecha_actual, product_name, NO_DISPONIBLE)))))"

text \<open>
  One iteration: the \<open>try\<close> body, and on an exception the handler. The handler first
  formats \<open>product_div.prettify()[:500]\<close> into its log message and then appends the error
  row; an exception of \<open>prettify\<close> leaves the handler (\<open>Inl\<close>) before the append.
\<close>

definition iluminar_item :: "string \<Rightarrow> tag \<Rightarrow> exn + row" where
  "iluminar_item fecha_actual product_div =
     (case iluminar_try_item fecha_actual product_div of
        Inr r \<Rightarrow> Inr r
      | Inl (e, product_name) \<Rightarrow>
          (case render product_div ''prettify'' of
             Inl e' \<Rightarrow> Inl e'
           | Inr snippet \<Rightarrow> Inr (error_row fecha_actual product_name e)))"

text \<open>
  The \<open>for product_div in product_divs\<close> loop. \<open>now k\<close> is what the \<open>k\<close>-th reading
  of \<open>datetime.now().strftime("%d/%m/%Y")\<close> during the call returns; the loop reads the
  clock once per node. An exception that leaves an iteration leaves the loop and the
  function (\<open>Inl\<close>), and \<open>products_found\<close> is lost with it.
\<close>

fun iluminar_loop :: "(nat \<Rightarrow> string) \<Rightarrow> nat \<Rightarrow> row list \<Rightarrow> tag list \<Rightarrow> exn + row list" where
  "iluminar_loop now k products_found [] = Inr products_found"
| "iluminar_loop now k products_found (product_div # rest) =
     (case iluminar_item (now k) product_div of
        Inl e \<Rightarrow> Inl e
      | Inr r \<Rightarrow> iluminar_loop now (Suc k) (products_found @ [r]) rest)"

definition process_products_from_soup :: "(nat \<Rightarrow> string) \<Rightarrow> tag \<Rightarrow> exn + row list" where
  "process_products_from_soup now soup =
     (let product_divs = select soup iluminar_product_selector
      in if product_divs = [] then Inr [] else iluminar_loop now 0 [] product_divs)"

section \<open>4electrolineas.py: per-page extraction\<close>

definition electrolineas_price_selectors :: "string list" where
  "electrolineas_price_selectors =
     [''span.price ins span.woocommerce-Price-amount.amount bdi'',
      ''span.price span.woocommerce-Price-amount.amount bdi'',
      ''div.wrap-price span.price span.woocommerce-Price-amount.amount bdi'',
      ''div.product-element-bottom div.wrap-price span.price span.woocommerce-Price-amount bdi'']"

definition electrolineas_try_item :: "string \<Rightarrow> tag \<Rightarrow> (exn \<times> string) + row" where
  "electrolineas_try_item fecha_actual product_div =
     (case find1 product_div ''.wd-entities-title a'' of
        Inl e \<Rightarrow> Inl (e, NO_DISPONIBLE)
      | Inr first_try \<Rightarrow>
          (case (case first_try of
                   Some el \<Rightarrow> Inr (Some el)
                 | None \<Rightarrow> find1 product_div ''div.product-element-bottom > h3 > a'') of
             Inl e \<Rightarrow> Inl (e, NO_DISPONIBLE)
           | Inr name_element \<Rightarrow>
               (case (case name_element of
                        Some el \<Rightarrow> Inr (strip (tag_text el))
                      | None \<Rightarrow>
                          (case find1 product_div ''h3, .wd-entities-title'' of
                             Inl e \<Rightarrow> Inl (e, NO_DISPONIBLE)
                           | Inr _ \<Rightarrow> Inr NO_DISPONIBLE)) of
                  Inl ex \<Rightarrow> Inl ex
                | Inr product_name \<Rightarrow>
                    (case price_cascade product_div electrolineas_price_selectors of
                       Inl e \<Rightarrow> Inl (e, product_name)
                     | Inr (Some price_element) \<Rightarrow>
                         Inr (fecha_actual, product_name, strip (tag_text price_element))
                     | Inr None \<Rightarrow>
                         (case find1 product_div ''span.price, div.wrap-price'' of
                            Inl e \<Rightarrow> Inl (e, product_name)
                          | Inr _ \<Rightarrow> Inr (fecha_actual, product_name, NO_DISPONIBLE))))))"

text \<open>One iteration; the handler formats \<open>str(product_div)[:250]\<close> into its log message
  before it appends the error row.\<close>

definition electrolineas_item :: "string \<Rightarrow> tag \<Rightarrow> exn + row" where
  "electrolineas_item fecha_actual product_div =
     (case electrolineas_try_item fecha_actual product_div of
        Inr r \<Rightarrow> Inr r
      | Inl (e, product_name) \<Rightarrow>
          (case render product_div ''str'' of
             Inl e' \<Rightarrow> Inl e'
           | Inr snippet \<Rightarrow> Inr (error_row fecha_actual product_name e)))"

text \<open>
  The loop appends to \<open>all_products_to_insert\<close>, the list of the whole run. The result is
  that list, and the exception that left the loop, if any: the rows appended before it
  stay in the list.
\<close>

fun electrolineas_loop ::
  "(nat \<Rightarrow> string) \<Rightarrow> nat \<Rightarrow> row list \<Rightarrow> tag list \<Rightarrow> row list \<times> exn option" where
  "electrolineas_loop now k all_products_to_insert [] = (all_products_to_insert, None)"
| "electrolineas_loop now k all_products_to_insert (product_div # rest) =
     (case electrolineas_item (now k) product_div of
        Inl e \<Rightarrow> (all_products_to_insert, Some e)
      | Inr r \<Rightarrow> electrolineas_loop now (Suc k) (all_products_to_insert @ [r]) rest)"

text \<open>The product nodes of a page: the primary selector, else the fallback selector.\<close>

definition electrolineas_product_divs :: "tag \<Rightarrow> tag list" where
  "electrolineas_product_divs page_soup =
     (let product_divs = select page_soup ''div.product-grid-item.product''
      in if product_divs = [] then select page_soup ''li.product.type-product'' else product_divs)"

definition electrolineas_page ::
  "(nat \<Rightarrow> string) \<Rightarrow> row list \<Rightarrow> tag \<Rightarrow> row list \<times> exn option" where
  "electrolineas_page now all_products_to_insert page_soup =
     (let product_divs = electrolineas_product_divs page_soup
      in if product_divs = [] then (all_products_to_insert, None)
         else electrolineas_loop now 0 all_products_to_insert product_divs)"

section \<open>5electromisiones.py: per-page extraction\<close>

definition electromisiones_product_selector :: string where
  "electromisiones_product_selector = ''#category-description article, #js-product-list article''"

definition electromisiones_name_selector :: string where
  "electromisiones_name_selector =
     ''h3.product-title a, h6.product-title a, .product-title a, .product_title a''"

definition electromisiones_price_selector :: string where
  "electromisiones_price_selector =
     ''span.price, div.tv-product-price span, .product-price-and-shipping .price, .product_price .price''"

text \<open>\<open>price_text_parts = [s.strip() for s in price_element.find_all(string=True, recursive=True)
  if s.strip()]\<close> and \<open>' '.join(price_text_parts) if price_text_parts else "No disponible"\<close>.\<close>

definition price_text_parts :: "tag \<Rightarrow> string list" where
  "price_text_parts price_element = filter (\<lambda>s. s \<noteq> []) (map strip (strings price_element))"

definition joined_price :: "tag \<Rightarrow> string" where
  "joined_price price_element =
     (let parts = price_text_parts price_element
      in if parts \<noteq> [] then join '' '' parts else NO_DISPONIBLE)"

text \<open>The body of the \<open>try\<close> for one product node. The two \<open>logging.warning\<close> calls
  format \<open>str(product_div)[:150]\<close> into their message.\<close>

definition electromisiones_try_item :: "string \<Rightarrow> tag \<Rightarrow> (exn \<times> string) + row" where
  "electromisiones_try_item fecha_actual product_div =
     (case find1 product_div electromisiones_name_selector of
        Inl e \<Rightarrow> Inl (e, NO_DISPONIBLE)
      | Inr name_element \<Rightarrow>
          (case (case name_element of
                   Some el \<Rightarrow> Inr (strip (tag_text el))
                 | None \<Rightarrow>
                     (case render product_div ''str'' of
                        Inl e \<Rightarrow> Inl (e, NO_DISPONIBLE)
                      | Inr snippet \<Rightarrow> Inr NO_DISPONIBLE)) of
             Inl ex \<Rightarrow> Inl ex
           | Inr product_name \<Rightarrow>
               (case find1 product_div electromisiones_price_selector of
                  Inl e \<Rightarrow> Inl (e, product_name)
                | Inr (Some price_element) \<Rightarrow>
                    Inr (fecha_actual, product_name, joined_price price_element)
                | Inr None \<Rightarrow>
                    (case render product_div ''str'' of
                       Inl e \<Rightarrow> Inl (e, product_name)
                     | Inr snippet \<Rightarrow> Inr (fecha_actual, product_name, NO_DISPONIBLE)))))"

text \<open>One iteration; the handler formats \<open>str(product_div)[:200]\<close> into its log message
  before it appends the error row.\<close>

definition electromisiones_item :: "string \<Rightarrow> tag \<Rightarrow> exn + row" where
  "electromisiones_item fecha_actual product_div =
     (case electromisiones_try_item fecha_actual product_div of
        Inr r \<Rightarrow> Inr r
      | Inl (e, product_name) \<Rightarrow>
          (case render product_div ''str'' of
             Inl e' \<Rightarrow> Inl e'
           | Inr snippet \<Rightarrow> Inr (error_row fecha_actual product_name e)))"

text \<open>The loop appends to \<open>all_products_to_insert\<close>; the result is that list and the
  exception that left the loop, if any.\<close>

fun electromisiones_loop ::
  "(nat \<Rightarrow> string) \<Rightarrow> nat \<Rightarrow> row list \<Rightarrow> tag list \<Rightarrow> row list \<times> exn option" where
  "electromisiones_loop now k all_products_to_insert [] = (all_products_to_insert, None)"
| "electromisiones_loop now k all_products_to_insert (product_div # rest) =
     (case electromisiones_item (now k) product_div of
        Inl e \<Rightarrow> (all_products_to_insert, Some e)
      | Inr r \<Rightarrow> electromisiones_loop now (Suc k) (all_products_to_insert @ [r]) rest)"

definition electromisiones_page ::
  "(nat \<Rightarrow> string) \<Rightarrow> row list \<Rightarrow> tag \<Rightarrow> row list \<times> exn option" where
  "electromisiones_page now all_products_to_insert soup =
     (let product_divs = select soup electromisiones_product_selector
      in if product_divs = [] then (all_products_to_insert, None)
         else electromisiones_loop now 0 all_products_to_insert product_divs)"

section \<open>1electropunto.py: per-page extraction\<close>

definition electropunto_product_selector :: string where
  "electropunto_product_selector = ''div class_=js-item-name h2 item-name''"

text \<open>
  The body of the \<open>try\<close> for one product node. The node itself is the name element
  (a \<open>Tag\<close> is always truthy, so the \<open>else: continue\<close> of the name test is never
  taken). The body ends with \<open>c.execute("INSERT ...", row)\<close>; \<open>execute row\<close> is
  \<open>Some msg\<close> when that statement raises. \<open>Inl e\<close> is an exception of the body.
\<close>

definition electropunto_try_item :: "(row \<Rightarrow> exn option) \<Rightarrow> string \<Rightarrow> tag \<Rightarrow> exn + row" where
  "electropunto_try_item execute fecha_actual product_div =
     (let product_name = strip (tag_text product_div) in
      case (case find1 product_div ''find_next_sibling div class_=item-price-container'' of
              Inl e \<Rightarrow> Inl e
            | Inr None \<Rightarrow> Inr NO_DISPONIBLE
            | Inr (Some price_container_outer) \<Rightarrow>
                (case find1 price_container_outer ''find div class_=js-price-display price item-price'' of
                   Inl e \<Rightarrow> Inl e
                 | Inr None \<Rightarrow> Inr NO_DISPONIBLE
                 | Inr (Some price_container_inner) \<Rightarrow> Inr (strip (tag_text price_container_inner)))) of
        Inl e \<Rightarrow> Inl e
      | Inr product_price \<Rightarrow>
          (case execute (fecha_actual, product_name, product_price) of
             Some e \<Rightarrow> Inl e
           | None \<Rightarrow> Inr (fecha_actual, product_name, product_price)))"

text \<open>
  The loop over the product nodes; \<open>inserted\<close> is the list of rows the cursor has
  accepted. Both handlers (\<open>except AttributeError\<close>, \<open>except Exception\<close>) log
  "Skipping item." with the URL and the exception only, and \<open>continue\<close>.
\<close>

fun electropunto_loop ::
  "(row \<Rightarrow> exn option) \<Rightarrow> (nat \<Rightarrow> string) \<Rightarrow> nat \<Rightarrow> row list \<Rightarrow> tag list \<Rightarrow> row list" where
  "electropunto_loop execute now k inserted [] = inserted"
| "electropunto_loop execute now k inserted (product_div # rest) =
     (case electropunto_try_item execute (now k) product_div of
        Inr r \<Rightarrow> electropunto_loop execute now (Suc k) (inserted @ [r]) rest
      | Inl e \<Rightarrow> electropunto_loop execute now (Suc k) inserted rest)"

definition electropunto_page ::
  "(row \<Rightarrow> exn option) \<Rightarrow> (nat \<Rightarrow> string) \<Rightarrow> row list \<Rightarrow> tag \<Rightarrow> row list" where
  "electropunto_page execute now inserted soup =
     (let product_divs = select soup electropunto_product_selector
      in if product_divs = [] then inserted
         else electropunto_loop execute now 0 inserted product_divs)"

section \<open>2casadelaslamparas.py: per-page extraction\<close>





section \<open>Concrete pages\<close>

text \<open>The serialisation of the elements below: it never raises.\<close>

definition renders :: "string \<Rightarrow> exn + string" where
  "renders method = Inr ''<div>...</div>''"



section \<open>3iluminar.py: probing the additional pages of a base URL\<close>

definition MAX_PAGE_CHECK :: nat where
  "MAX_PAGE_CHECK = 100"

text \<open>The text node \<open>soup.find(string=...)\<close> looks for: the site's page-not-found message
  (its first character is code point 161, the \<open>a\<close> of its last word is code point 225).\<close>

definition page_not_found_message :: string where
  "page_not_found_message =
     char_of (161 :: nat) # ''Ups! No pudimos encontrar esa p'' @ char_of (225 :: nat) # ''gina.''"

text \<open>
  What loading \<open>f"{base_url}page/{page_num}/"\<close> and parsing it gives: the parsed page,
  or one of the exceptions the three handlers of the loop catch.
\<close>

datatype load = Loaded tag | TimeoutException | WebDriverException exn | OtherException exn

text \<open>
  The state of the loop: the page numbers requested with \<open>driver.get\<close> so far, the page
  numbers whose iteration ran to its end (the page was not discarded by a \<open>break\<close>),
  and \<open>current_url_products\<close>.
\<close>

record probe =
  requested :: "nat list"
  accepted :: "nat list"
  current_url_products :: "row list"

text \<open>The test on \<open>no_product_notice = soup.select_one("p.woocommerce-info")\<close>.\<close>

definition is_no_products_notice :: "tag option \<Rightarrow> bool" where
  "is_no_products_notice no_product_notice =
     (case no_product_notice of
        None \<Rightarrow> False
      | Some notice \<Rightarrow>
          contains (tag_text notice) ''No se encontraron productos''
          \<or> contains (tag_text notice) ''No products were found'')"

text \<open>
  The loop \<open>for page_num in range(2, MAX_PAGE_CHECK + 1)\<close> over the remaining page
  numbers. \<open>load page_num\<close> is the outcome of loading that page; \<open>now page_num\<close> is the
  clock during its extraction. Every \<open>break\<close> returns the state as it is; an exception
  of the extraction is caught by \<open>except Exception\<close>, which breaks as well.
\<close>

fun probe_pages :: "(nat \<Rightarrow> nat \<Rightarrow> string) \<Rightarrow> (nat \<Rightarrow> load) \<Rightarrow> nat list \<Rightarrow> probe \<Rightarrow> probe" where
  "probe_pages now load [] st = st"
| "probe_pages now load (page_num # rest) st =
     (let st1 = st\<lparr>requested := requested st @ [page_num]\<rparr> in
      case load page_num of
        Loaded soup \<Rightarrow>
          if page_not_found_message \<in> set (strings soup) then st1
          else
            (case process_products_from_soup (now page_num) soup of
               Inl e \<Rightarrow> st1
             | Inr products_from_page \<Rightarrow>
                 if products_from_page = [] then
                   (case find1 soup ''p.woocommerce-info'' of
                      Inl e \<Rightarrow> st1
                    | Inr no_product_notice \<Rightarrow>
                        if is_no_products_notice no_product_notice then st1
                        else if page_num > 5 then st1
                        else probe_pages now load rest
                               (st1\<lparr>accepted := accepted st1 @ [page_num]\<rparr>))
                 else
                   probe_pages now load rest
                     (st1\<lparr>accepted := accepted st1 @ [page_num],
                          current_url_products :=
                            current_url_products st1 @ products_from_page\<rparr>))
      | TimeoutException \<Rightarrow> st1
      | WebDriverException e \<Rightarrow> st1
      | OtherException e \<Rightarrow> st1)"

definition probe_additional_pages :: "(nat \<Rightarrow> nat \<Rightarrow> string) \<Rightarrow> (nat \<Rightarrow> load) \<Rightarrow> row list \<Rightarrow> probe" where
  "probe_additional_pages now load page1_products =
     probe_pages now load [2..<MAX_PAGE_CHECK + 1]
       \<lparr>requested = [], accepted = [], current_url_products = page1_products\<rparr>"

text \<open>Pages of 3iluminar.py: an element with text only; a product node with a name and a
  two-fragment price; a page with that product; a page with no product and the shop's
  no-results notice; a page with both; a plain empty page.\<close>

definition leaf :: "string list \<Rightarrow> tag" where
  "leaf texts = Tag texts renders Map.empty (\<lambda>_. Inr None) (\<lambda>_. [])"

definition lamp_node :: tag where
  "lamp_node =
     Tag [''Lampara LED'', ''$'', ''100''] renders Map.empty
       (\<lambda>s. if s = iluminar_name_selector then Inr (Some (leaf [''Lampara LED'']))
            else if s = ''div.price-wrapper bdi'' then Inr (Some (leaf [''$'', ''100'']))
            else Inr None)
       (\<lambda>_. [])"

definition no_results_notice :: tag where
  "no_results_notice = leaf [''No se encontraron productos que concuerden.'']"

definition products_page :: tag where
  "products_page =
     Tag [''Lampara LED'', ''$'', ''100''] renders Map.empty (\<lambda>_. Inr None)
       (\<lambda>s. if s = iluminar_product_selector then [lamp_node] else [])"

definition notice_page :: tag where
  "notice_page =
     Tag [''No se encontraron productos que concuerden.''] renders Map.empty
       (\<lambda>s. if s = ''p.woocommerce-info'' then Inr (Some no_results_notice) else Inr None)
       (\<lambda>_. [])"

definition notice_and_products_page :: tag where
  "notice_and_products_page =
     Tag [''No se encontraron productos que concuerden.'', ''Lampara LED'', ''$'', ''100''] renders Map.empty
       (\<lambda>s. if s = ''p.woocommerce-info'' then Inr (Some no_results_notice) else Inr None)
       (\<lambda>s. if s = iluminar_product_selector then [lamp_node] else [])"

definition empty_page :: tag where
  "empty_page = leaf []"

text \<open>Two sites: on both, pages 2 and 3 list a product and loading page 5 times out; page 4
  carries the no-results notice, without a product on the first site and with one on the
  second.\<close>

definition site_notice_on_4 :: "nat \<Rightarrow> load" where
  "site_notice_on_4 page_num =
     (if page_num \<le> 3 then Loaded products_page
      else if page_num = 4 then Loaded notice_page
      else TimeoutException)"

definition site_notice_and_product_on_4 :: "nat \<Rightarrow> load" where
  "site_notice_and_product_on_4 page_num =
     (if page_num \<le> 3 then Loaded products_page
      else if page_num = 4 then Loaded notice_and_products_page
      else TimeoutException)"

definition today :: "nat \<Rightarrow> string" where
  "today k = ''04/11/2026''"

text \<open>A product node whose name is found by every scraper's first name selector and whose
  every other lookup raises with a 70-character message; a page on which every selector
  finds exactly this node.\<close>

definition long_message :: string where
  "long_message = ''0123456789012345678901234567890123456789012345678901234567890123456789''"

definition price_raising_node :: tag where
  "price_raising_node =
     Tag ['' Cable 2x1.5 ''] renders Map.empty
       (\<lambda>s. if s = iluminar_name_selector \<or> s = ''.wd-entities-title a''
                \<or> s = electromisiones_name_selector
            then Inr (Some (leaf ['' Cable 2x1.5 '']))
            else Inl long_message)
       (\<lambda>_. [])"

definition error_page :: tag where
  "error_page = Tag ['' Cable 2x1.5 ''] renders Map.empty (\<lambda>_. Inr None) (\<lambda>_. [price_raising_node])"

text \<open>A product node with a name and a three-fragment price for scrapers 3 and 5, a node
  with a name and no price element, and a page whose product selector finds three nodes,
  the second of them without a price.\<close>

definition priced_node :: tag where
  "priced_node =
     Tag [''Cable 2x1.5'', ''$ '', '' '', ''100''] renders Map.empty
       (\<lambda>s. if s = iluminar_name_selector \<or> s = electromisiones_name_selector
            then Inr (Some (leaf [''Cable 2x1.5'']))
            else if s = ''div.price-wrapper bdi'' \<or> s = electromisiones_price_selector
            then Inr (Some (leaf [''$ '', '' '', ''100'']))
            else Inr None)
       (\<lambda>_. [])"

definition no_price_node :: tag where
  "no_price_node =
     Tag [''Caja estanca''] renders Map.empty
       (\<lambda>s. if s = iluminar_name_selector \<or> s = electromisiones_name_selector
            then Inr (Some (leaf [''Caja estanca'']))
            else Inr None)
       (\<lambda>_. [])"

definition three_products_page :: tag where
  "three_products_page =
     Tag [''Cable 2x1.5'', ''$ '', '' '', ''100'', ''Caja estanca'', ''Cable 2x1.5'', ''$ '', '' '', ''100''] renders Map.empty
       (\<lambda>_. Inr None) (\<lambda>_. [priced_node, no_price_node, priced_node])"

section \<open>4electrolineas.py: harvesting the pagination links of a base URL\<close>

text \<open>\<open>pagination_nav = soup.select_one("nav.woocommerce-pagination")\<close>, and if that finds
  nothing, \<open>soup.select_one(".products-footer nav")\<close>.\<close>

definition pagination_nav :: "tag \<Rightarrow> exn + tag option" where
  "pagination_nav soup =
     (case find1 soup ''nav.woocommerce-pagination'' of
        Inl e \<Rightarrow> Inl e
      | Inr (Some nav) \<Rightarrow> Inr (Some nav)
      | Inr None \<Rightarrow> find1 soup ''.products-footer nav'')"

text \<open>\<open>for link_tag in links: if link_tag and 'href' in link_tag.attrs:
  page_urls_to_scrape.add(link_tag['href'])\<close>.\<close>

fun add_links :: "tag list \<Rightarrow> string set \<Rightarrow> string set" where
  "add_links [] page_urls_to_scrape = page_urls_to_scrape"
| "add_links (link_tag # rest) page_urls_to_scrape =
     add_links rest
       (case attrs link_tag ''href'' of
          Some href \<Rightarrow> insert href page_urls_to_scrape
        | None \<Rightarrow> page_urls_to_scrape)"

text \<open>
  The page URLs scraped for one base URL, in the order of traversal
  (\<open>sorted(list(page_urls_to_scrape))\<close>; Python orders strings by code point, as the
  lexicographic order on \<open>string\<close> does). \<open>response\<close> is what
  \<open>session.get(base_url)\<close> followed by \<open>raise_for_status()\<close> and parsing gives:
  \<open>Inl\<close> a request exception, \<open>Inr\<close> the parsed page. \<open>Inl\<close> as a result is the
  \<open>continue\<close> of the two handlers: the base URL is skipped.
\<close>

definition discover_pages :: "string \<Rightarrow> exn + tag \<Rightarrow> exn + string list" where
  "discover_pages base_url response =
     (case response of
        Inl e \<Rightarrow> Inl e
      | Inr soup \<Rightarrow>
          (case pagination_nav soup of
             Inl e \<Rightarrow> Inl e
           | Inr (Some nav) \<Rightarrow>
               Inr (sorted_list_of_set (add_links (select nav ''a.page-numbers'') {base_url}))
           | Inr None \<Rightarrow> Inr (sorted_list_of_set {base_url})))"

text \<open>A category page whose pagination element links to the base page, to pages 2 and 3
  and (the "next" arrow) to page 2 again; one numbered element carries no \<open>href\<close>.\<close>

definition anchor :: "string \<Rightarrow> string \<Rightarrow> tag" where
  "anchor label href = Tag [label] renders [''href'' \<mapsto> href] (\<lambda>_. Inr None) (\<lambda>_. [])"

definition category_nav :: tag where
  "category_nav =
     Tag [''1'', ''2'', ''3'', ''>''] renders Map.empty (\<lambda>_. Inr None)
       (\<lambda>s. if s = ''a.page-numbers''
            then [anchor ''3'' ''https://shop.example/cables/page/3/'',
                  leaf [''...''],
                  anchor ''2'' ''https://shop.example/cables/page/2/'',
                  anchor ''1'' ''https://shop.example/cables/'',
                  anchor ''>'' ''https://shop.example/cables/page/2/'']
            else [])"

definition category_page :: tag where
  "category_page =
     Tag [''1'', ''2'', ''3'', ''>''] renders Map.empty
       (\<lambda>s. if s = ''nav.woocommerce-pagination'' then Inr (Some category_nav) else Inr None)
       (\<lambda>_. [])"

section \<open>Scrolling a page to its end\<close>

text \<open>
  Both dynamic scrapers measure \<open>document.body.scrollHeight\<close> once before their loop and
  once in every iteration. The browser is modelled by what it answers: \<open>height k\<close> is the
  \<open>k\<close>-th measurement of a page load (\<open>height 0\<close> the one before the loop).
\<close>

subsection \<open>2casadelaslamparas.py\<close>

text \<open>
  The loop \<open>while True: ... new_height = ...; if new_height == last_height: break;
  last_height = new_height\<close>. \<open>k\<close> is the index of the next measurement. The result is
  the number of scrolls made when the loop is left; \<open>None\<close> means it is never left.
\<close>

partial_function (option) casa_scroll_loop :: "(nat \<Rightarrow> int) \<Rightarrow> nat \<Rightarrow> int \<Rightarrow> nat option" where
  "casa_scroll_loop height k last_height =
     (let new_height = height k in
      if new_height = last_height then Some k
      else casa_scroll_loop height (Suc k) new_height)"

declare casa_scroll_loop.simps [code]

definition casa_scroll :: "(nat \<Rightarrow> int) \<Rightarrow> nat option" where
  "casa_scroll height = casa_scroll_loop height 1 (height 0)"

subsection \<open>3iluminar.py: scroll_page_fully\<close>

text \<open>
  The loop \<open>while scroll_attempts < 15\<close>. The iteration entered with \<open>scroll_attempts = a\<close>
  takes measurement \<open>a + 1\<close>. The result is \<open>scroll_attempts\<close> when the loop is left and
  the number of scrolls made.
\<close>

function scroll_loop :: "(nat \<Rightarrow> int) \<Rightarrow> nat \<Rightarrow> nat \<Rightarrow> int \<Rightarrow> nat \<times> nat" where
  "scroll_loop height scroll_attempts consecutive_no_change last_height =
     (if scroll_attempts < 15 then
        (let new_height = height (Suc scroll_attempts) in
         if new_height = last_height then
           (if consecutive_no_change + 1 \<ge> 2 then (scroll_attempts, Suc scroll_attempts)
            else scroll_loop height (Suc scroll_attempts) (consecutive_no_change + 1) new_height)
         else scroll_loop height (Suc scroll_attempts) 0 new_height)
      else (scroll_attempts, scroll_attempts))"
  by pat_completeness auto
termination
  by (relation "measure (\<lambda>(height, scroll_attempts, consecutive_no_change, last_height).
        15 - scroll_attempts)") auto

declare scroll_loop.simps [simp del]

text \<open>What a call of \<open>scroll_page_fully\<close> did: the scrolls it made, and whether it logged
  the warning of \<open>if scroll_attempts >= 15\<close>. The function returns normally either way.\<close>

record scrolled =
  scrolls :: nat
  warned :: bool

definition scroll_page_fully :: "(nat \<Rightarrow> int) \<Rightarrow> scrolled" where
  "scroll_page_fully height =
     (case scroll_loop height 0 0 (height 0) of
        (scroll_attempts, n) \<Rightarrow> \<lparr>scrolls = n, warned = (scroll_attempts \<ge> 15)\<rparr>)"

text \<open>Two page loads: a feed that grows by 500 pixels at every scroll, and a page that
  grows twice and then stays at 2000 pixels.\<close>

definition endless_feed :: "nat \<Rightarrow> int" where
  "endless_feed k = 1000 + 500 * int k"

definition settling_page :: "nat \<Rightarrow> int" where
  "settling_page k = (if k < 2 then 1000 + 500 * int k else 2000)"

section \<open>Persisting a batch, and the orchestrator\<close>

subsection \<open>3iluminar.py: the final insert\<close>




subsection \<open>main.py\<close>




definition scripts :: "string list" where
  "scripts = [''1electropunto.py'', ''2casadelaslamparas.py'', ''3iluminar.py'',
              ''4electrolineas.py'', ''5electromisiones.py'', ''6listas_en_excel.py'',
              ''7envio_email.py'']"



subsection \<open>A run over several sources\<close>






section \<open>Static fetch\<close>

text \<open>
  4electrolineas.py and 5electromisiones.py: \<open>create_session_with_retries\<close> mounts
  \<open>Retry(total=5, backoff_factor=..., status_forcelist=[500, 502, 503, 504])\<close> on the
  session. The backoff factor only sets the waiting time between attempts and is left
  out. 1electropunto.py calls \<open>requests.get\<close> without a retry strategy.
\<close>

record retry_strategy =
  total :: nat
  status_forcelist :: "nat list"

definition create_session_with_retries :: retry_strategy where
  "create_session_with_retries = \<lparr>total = 5, status_forcelist = [500, 502, 503, 504]\<rparr>"

definition no_retries :: retry_strategy where
  "no_retries = \<lparr>total = 0, status_forcelist = []\<rparr>"

text \<open>
  Modelled from the spec: the retry loop of the HTTP client (the adapter of the
  \<open>requests\<close> library that executes the mounted \<open>Retry\<close> strategy; it is not part of
  src/). The spec: the fetch "retries on a designated set of transient server error
  status codes ..., up to a fixed attempt ceiling"; any other response is handed back
  without retry. \<open>server k\<close> is the status the server answers to the \<open>k\<close>-th request of
  this fetch; \<open>retries_left\<close> counts the retries still allowed. The result is the number
  of requests issued and the status handed back, or \<open>None\<close> when the retries are used up.
\<close>

fun send :: "nat list \<Rightarrow> (nat \<Rightarrow> nat) \<Rightarrow> nat \<Rightarrow> nat \<Rightarrow> nat \<times> nat option" where
  "send forcelist server k 0 =
     (if server k \<in> set forcelist then (Suc k, None) else (Suc k, Some (server k)))"
| "send forcelist server k (Suc retries_left) =
     (if server k \<in> set forcelist then send forcelist server (Suc k) retries_left
      else (Suc k, Some (server k)))"

text \<open>
  \<open>response = session.get(url, timeout=...)\<close> followed by \<open>response.raise_for_status()\<close>
  ("Raises an HTTPError for bad responses (4XX or 5XX)"). The result is the number of
  requests issued, and the status of the accepted response or the exception raised; both
  exceptions are \<open>requests.exceptions.RequestException\<close>s.
\<close>

datatype request_exception = RetryError | HTTPError nat

definition static_fetch :: "retry_strategy \<Rightarrow> (nat \<Rightarrow> nat) \<Rightarrow> nat \<times> (request_exception + nat)" where
  "static_fetch strategy server =
     (case send (status_forcelist strategy) server 0 (total strategy) of
        (requests, None) \<Rightarrow> (requests, Inl RetryError)
      | (requests, Some status) \<Rightarrow>
          if 400 \<le> status \<and> status < 600 then (requests, Inl (HTTPError status))
          else (requests, Inr status))"

text \<open>The retries of a fetch: every request after the first.\<close>

definition retries :: "nat \<times> (request_exception + nat) \<Rightarrow> nat" where
  "retries result = fst result - 1"

subsection \<open>The loops over the URLs\<close>

text \<open>
  In the three loops below, \<open>site url\<close> is the server behind a URL (the statuses it
  answers to the requests of one fetch), \<open>page url\<close> the parsed page a successful fetch of
  the URL gives, and \<open>now url\<close> the clock during its extraction.
\<close>

text \<open>
  1electropunto.py: \<open>for url in urls: try: response = requests.get(url, ...);
  response.raise_for_status() except requests.exceptions.RequestException: log; continue\<close>,
  then the extraction of the page.
\<close>

fun electropunto_urls ::
  "(row \<Rightarrow> exn option) \<Rightarrow> (string \<Rightarrow> nat \<Rightarrow> nat) \<Rightarrow> (string \<Rightarrow> tag) \<Rightarrow> (string \<Rightarrow> nat \<Rightarrow> string) \<Rightarrow>
   string list \<Rightarrow> row list \<Rightarrow> row list" where
  "electropunto_urls execute site page now [] inserted = inserted"
| "electropunto_urls execute site page now (url # rest) inserted =
     (case snd (static_fetch no_retries (site url)) of
        Inl e \<Rightarrow> electropunto_urls execute site page now rest inserted
      | Inr status \<Rightarrow>
          electropunto_urls execute site page now rest
            (electropunto_page execute (now url) inserted (page url)))"

text \<open>
  5electromisiones.py: \<open>for base_url in base_urls: try: response = session.get(base_url,
  ...); response.raise_for_status(); ... except requests.exceptions.RequestException: log
  except Exception: log\<close>. Both handlers fall through to the next URL; the rows already
  appended stay in \<open>all_products_to_insert\<close>.
\<close>

fun electromisiones_urls ::
  "(string \<Rightarrow> nat \<Rightarrow> nat) \<Rightarrow> (string \<Rightarrow> tag) \<Rightarrow> (string \<Rightarrow> nat \<Rightarrow> string) \<Rightarrow> string list \<Rightarrow>
   row list \<Rightarrow> row list" where
  "electromisiones_urls site page now [] all_products_to_insert = all_products_to_insert"
| "electromisiones_urls site page now (base_url # rest) all_products_to_insert =
     (case snd (static_fetch create_session_with_retries (site base_url)) of
        Inl e \<Rightarrow> electromisiones_urls site page now rest all_products_to_insert
      | Inr status \<Rightarrow>
          electromisiones_urls site page now rest
            (fst (electromisiones_page (now base_url) all_products_to_insert (page base_url))))"

text \<open>
  4electrolineas.py, the inner loop \<open>for page_url in sorted(list(page_urls_to_scrape))\<close>:
  the same two handlers, falling through to the next page.
\<close>

fun electrolineas_pages ::
  "(string \<Rightarrow> nat \<Rightarrow> nat) \<Rightarrow> (string \<Rightarrow> tag) \<Rightarrow> (string \<Rightarrow> nat \<Rightarrow> string) \<Rightarrow> string list \<Rightarrow>
   row list \<Rightarrow> row list" where
  "electrolineas_pages site page now [] all_products_to_insert = all_products_to_insert"
| "electrolineas_pages site page now (page_url # rest) all_products_to_insert =
     (case snd (static_fetch create_session_with_retries (site page_url)) of
        Inl e \<Rightarrow> electrolineas_pages site page now rest all_products_to_insert
      | Inr status \<Rightarrow>
          electrolineas_pages site page now rest
            (fst (electrolineas_page (now page_url) all_products_to_insert (page page_url))))"

text \<open>
  4electrolineas.py, the outer loop \<open>for base_url in base_urls\<close>: the base page is fetched
  for its pagination links; a failed fetch, or an exception while the links are read,
  \<open>continue\<close>s with the next base URL; otherwise the pages found are scraped.
\<close>

fun electrolineas_base_urls ::
  "(string \<Rightarrow> nat \<Rightarrow> nat) \<Rightarrow> (string \<Rightarrow> tag) \<Rightarrow> (string \<Rightarrow> nat \<Rightarrow> string) \<Rightarrow> string list \<Rightarrow>
   row list \<Rightarrow> row list" where
  "electrolineas_base_urls site page now [] all_products_to_insert = all_products_to_insert"
| "electrolineas_base_urls site page now (base_url # rest) all_products_to_insert =
     (case snd (static_fetch create_session_with_retries (site base_url)) of
        Inl e \<Rightarrow> electrolineas_base_urls site page now rest all_products_to_insert
      | Inr status \<Rightarrow>
          (case discover_pages base_url (Inr (page base_url)) of
             Inl e \<Rightarrow> electrolineas_base_urls site page now rest all_products_to_insert
           | Inr page_urls \<Rightarrow>
               electrolineas_base_urls site page now rest
                 (electrolineas_pages site page now page_urls all_products_to_insert)))"

text \<open>Three servers: one that always answers 503, one that answers 404, and one that
  answers 503 twice and then 200; a site with one URL on each of them.\<close>

definition always_503 :: "nat \<Rightarrow> nat" where
  "always_503 k = 503"

definition always_404 :: "nat \<Rightarrow> nat" where
  "always_404 k = 404"

definition recovers_after_two :: "nat \<Rightarrow> nat" where
  "recovers_after_two k = (if k < 2 then 503 else 200)"

definition example_urls :: "string list" where
  "example_urls = [''https://shop.example/a'', ''https://shop.example/b'', ''https://shop.example/c'']"

definition example_site :: "string \<Rightarrow> nat \<Rightarrow> nat" where
  "example_site url =
     (if url = ''https://shop.example/a'' then always_404
      else if url = ''https://shop.example/b'' then always_503
      else recovers_after_two)"

text \<open>A product node of 3iluminar.py whose name lookup raises and whose serialisation
  raises as well, and a page with a good node followed by it.\<close>

definition unprintable_node :: tag where
  "unprintable_node =
     Tag [''Cable 2x1.5''] (\<lambda>_. Inl ''cannot serialise'') Map.empty (\<lambda>_. Inl ''boom'') (\<lambda>_. [])"

definition unprintable_page :: tag where
  "unprintable_page =
     Tag [''Lampara LED'', ''$'', ''100'', ''Cable 2x1.5''] renders Map.empty (\<lambda>_. Inr None)
       (\<lambda>_. [lamp_node, unprintable_node])"

definition always_200 :: "nat \<Rightarrow> nat" where
  "always_200 k = 200"

text \<open>A page of 1electropunto.py with one product, and a site for it: one URL answers
  404, the other 200.\<close>

definition punto_node :: tag where
  "punto_node =
     Tag [''Cable 2x1.5''] renders Map.empty
       (\<lambda>s. if s = ''find_next_sibling div class_=item-price-container''
            then Inr (Some (Tag [''$100''] renders Map.empty
                   (\<lambda>s. if s = ''find div class_=js-price-display price item-price''
                        then Inr (Some (leaf [''$100''])) else Inr None)
                   (\<lambda>_. [])))
            else Inr None)
       (\<lambda>_. [])"

definition punto_page :: tag where
  "punto_page = Tag [''Cable 2x1.5'', ''$100''] renders Map.empty (\<lambda>_. Inr None) (\<lambda>_. [punto_node])"

definition punto_site :: "string \<Rightarrow> nat \<Rightarrow> nat" where
  "punto_site url = (if url = ''https://shop.example/a'' then always_404 else always_200)"

text \<open>A site for 4electrolineas.py: one base URL is down; the other one is the category
  page above, whose page 2 answers 404 and whose page 3 lists three products.\<close>

definition harvest_site :: "string \<Rightarrow> nat \<Rightarrow> nat" where
  "harvest_site url =
     (if url = ''https://shop.example/down/'' then always_503
      else if url = ''https://shop.example/cables/page/2/'' then always_404
      else recovers_after_two)"

definition harvest_page :: "string \<Rightarrow> tag" where
  "harvest_page url =
     (if url = ''https://shop.example/cables/'' then category_page else three_products_page)"

section \<open>Record count against node count\<close>

lemma iluminar_item_returns:
  "\<not> isl (render d ''prettify'') \<Longrightarrow> \<not> isl (iluminar_item f d)"
  by (auto simp: iluminar_item_def split: sum.splits prod.splits)

lemma electrolineas_item_returns:
  "\<not> isl (render d ''str'') \<Longrightarrow> \<not> isl (electrolineas_item f d)"
  by (auto simp: electrolineas_item_def split: sum.splits prod.splits)

lemma electromisiones_item_returns:
  "\<not> isl (render d ''str'') \<Longrightarrow> \<not> isl (electromisiones_item f d)"
  by (auto simp: electromisiones_item_def split: sum.splits prod.splits)

lemma iluminar_loop_length:
  "iluminar_loop now k acc ds = Inr rows \<Longrightarrow> length rows = length acc + length ds"
  by (induction ds arbitrary: k acc) (auto split: sum.splits)

lemma iluminar_loop_returns:
  "(\<forall>d\<in>set ds. \<not> isl (render d ''prettify'')) \<Longrightarrow> \<not> isl (iluminar_loop now k acc ds)"
proof (induction ds arbitrary: k acc)
  case Nil
  show ?case by simp
next
  case (Cons d ds)
  then have "\<not> isl (iluminar_item (now k) d)"
    by (simp add: iluminar_item_returns)
  then obtain r where "iluminar_item (now k) d = Inr r"
    by (cases "iluminar_item (now k) d") auto
  with Cons show ?case by simp
qed

lemma process_products_from_soup_returns:
  "(\<forall>d\<in>set (select soup iluminar_product_selector). \<not> isl (render d ''prettify'')) \<Longrightarrow>
   \<not> isl (process_products_from_soup now soup)"
  by (simp add: process_products_from_soup_def Let_def iluminar_loop_returns)

lemma process_products_from_soup_length:
  "process_products_from_soup now soup = Inr rows \<Longrightarrow>
   length rows = length (select soup iluminar_product_selector)"
  by (auto simp: process_products_from_soup_def Let_def split: if_splits
      dest: iluminar_loop_length)

lemma electrolineas_loop_length:
  "electrolineas_loop now k acc ds = (rows, None) \<Longrightarrow> length rows = length acc + length ds"
  by (induction ds arbitrary: k acc) (auto split: sum.splits)

lemma electrolineas_loop_returns:
  "(\<forall>d\<in>set ds. \<not> isl (render d ''str'')) \<Longrightarrow> snd (electrolineas_loop now k acc ds) = None"
proof (induction ds arbitrary: k acc)
  case Nil
  show ?case by simp
next
  case (Cons d ds)
  then have "\<not> isl (electrolineas_item (now k) d)"
    by (simp add: electrolineas_item_returns)
  then obtain r where "electrolineas_item (now k) d = Inr r"
    by (cases "electrolineas_item (now k) d") auto
  with Cons show ?case by simp
qed

lemma electromisiones_loop_length:
  "electromisiones_loop now k acc ds = (rows, None) \<Longrightarrow> length rows = length acc + length ds"
  by (induction ds arbitrary: k acc) (auto split: sum.splits)

lemma electromisiones_loop_returns:
  "(\<forall>d\<in>set ds. \<not> isl (render d ''str'')) \<Longrightarrow> snd (electromisiones_loop now k acc ds) = None"
proof (induction ds arbitrary: k acc)
  case Nil
  show ?case by simp
next
  case (Cons d ds)
  then have "\<not> isl (electromisiones_item (now k) d)"
    by (simp add: electromisiones_item_returns)
  then obtain r where "electromisiones_item (now k) d = Inr r"
    by (cases "electromisiones_item (now k) d") auto
  with Cons show ?case by simp
qed







text \<open>When the handler of 3iluminar.py itself raises while it serialises the node, the
  exception leaves \<open>process_products_from_soup\<close> and the rows of the page are lost.\<close>

lemma handler_raise_loses_page:
  "process_products_from_soup today unprintable_page = Inl ''cannot serialise''"
  by code_simp

section \<open>Sequential probing of additional pages\<close>

lemma probe_pages_requested_length:
  "length (requested (probe_pages now load ps st)) \<le> length (requested st) + length ps"
proof (induction ps arbitrary: st)
  case Nil
  show ?case by simp
next
  case (Cons p ps)
  have IH: "length (requested (probe_pages now load ps st')) \<le> Suc (length (requested st) + length ps)"
    if "length (requested st') = Suc (length (requested st))" for st'
    using Cons.IH[of st'] that by simp
  show ?case
    by (auto simp: Let_def split: load.splits sum.splits intro!: IH)
qed

lemma no_products_iff:
  "process_products_from_soup now soup = Inr products \<Longrightarrow>
   products = [] \<longleftrightarrow> select soup iluminar_product_selector = []"
  using process_products_from_soup_length[of now soup products] by auto

lemma no_nodes_no_products:
  "select soup iluminar_product_selector = [] \<Longrightarrow> process_products_from_soup now soup = Inr []"
  by (simp add: process_products_from_soup_def)

text \<open>
  C2: the probe loop of 3iluminar.py is a total function of the pages it is served, and for
  every way the pages can load and whatever they contain it requests at most 99
  additional pages (page numbers 2 to 100), which is within the ceiling
  \<open>MAX_PAGE_CHECK = 100\<close>.
\<close>

theorem probe_bounded:
  "length (requested (probe_additional_pages now load page1_products)) \<le> 99
   \<and> length (requested (probe_additional_pages now load page1_products)) \<le> MAX_PAGE_CHECK"
  using probe_pages_requested_length[of now load "[2..<MAX_PAGE_CHECK + 1]"
      "\<lparr>requested = [], accepted = [], current_url_products = page1_products\<rparr>"]
  by (simp add: probe_additional_pages_def MAX_PAGE_CHECK_def)

text \<open>The bound is reached when no stop condition ever triggers: a site whose every page
  lists a product is probed up to page 100.\<close>

lemma probe_pages_never_stopping:
  assumes "\<And>p. p \<in> set ps \<Longrightarrow>
             \<exists>soup. load p = Loaded soup \<and> page_not_found_message \<notin> set (strings soup)
               \<and> select soup iluminar_product_selector \<noteq> []
               \<and> \<not> isl (process_products_from_soup (now p) soup)"
  shows "requested (probe_pages now load ps st) = requested st @ ps"
  using assms
proof (induction ps arbitrary: st)
  case Nil
  show ?case by simp
next
  case (Cons p ps)
  from Cons.prems[of p] obtain soup where soup: "load p = Loaded soup"
    "page_not_found_message \<notin> set (strings soup)" "select soup iluminar_product_selector \<noteq> []"
    "\<not> isl (process_products_from_soup (now p) soup)"
    by auto
  then obtain products where products: "process_products_from_soup (now p) soup = Inr products"
    by (cases "process_products_from_soup (now p) soup") auto
  then have ne: "products \<noteq> []"
    using no_products_iff soup(3) by blast
  have rest: "\<And>q. q \<in> set ps \<Longrightarrow>
             \<exists>soup. load q = Loaded soup \<and> page_not_found_message \<notin> set (strings soup)
               \<and> select soup iluminar_product_selector \<noteq> []
               \<and> \<not> isl (process_products_from_soup (now q) soup)"
    using Cons.prems by simp
  show ?case
    using soup products ne Cons.IH[OF rest] by (simp add: Let_def)
qed

lemma probe_reaches_page_100:
  "requested (probe_additional_pages now (\<lambda>_. Loaded products_page) page1_products) = [2..<101]"
proof -
  have "page_not_found_message \<notin> set (strings products_page)"
    by (simp add: products_page_def page_not_found_message_def)
  moreover have "select products_page iluminar_product_selector \<noteq> []"
    by (simp add: products_page_def)
  moreover have "\<not> isl (process_products_from_soup f products_page)" for f
    by (rule process_products_from_soup_returns)
      (simp add: products_page_def lamp_node_def renders_def)
  ultimately show ?thesis
    unfolding probe_additional_pages_def
    by (subst probe_pages_never_stopping) (simp_all add: MAX_PAGE_CHECK_def)
qed

text \<open>
  C5 (as stated): a no-results notice on a page stops the probing whenever the page has
  no page-not-found marker. This fails when the page also has a product node: on
  \<open>site_notice_and_product_on_4\<close> page 4 carries the notice, and page 5 is requested.
\<close>

theorem notice_with_product_does_not_stop:
  "site_notice_and_product_on_4 4 = Loaded notice_and_products_page
   \<and> page_not_found_message \<notin> set (strings notice_and_products_page)
   \<and> find1 notice_and_products_page ''p.woocommerce-info'' = Inr (Some no_results_notice)
   \<and> is_no_products_notice (Some no_results_notice)
   \<and> requested (probe_additional_pages (\<lambda>_. today) site_notice_and_product_on_4 []) = [2, 3, 4, 5]
   \<and> accepted (probe_additional_pages (\<lambda>_. today) site_notice_and_product_on_4 []) = [2, 3, 4]"
proof -
  have "site_notice_and_product_on_4 4 = Loaded notice_and_products_page"
    by (simp add: site_notice_and_product_on_4_def)
  moreover have "page_not_found_message \<notin> set (strings notice_and_products_page)"
    by (simp add: notice_and_products_page_def page_not_found_message_def)
  moreover have "find1 notice_and_products_page ''p.woocommerce-info'' = Inr (Some no_results_notice)"
    by (simp add: notice_and_products_page_def)
  moreover have "is_no_products_notice (Some no_results_notice)"
    by code_simp
  moreover have "requested (probe_additional_pages (\<lambda>_. today) site_notice_and_product_on_4 []) = [2, 3, 4, 5]"
    by code_simp
  moreover have "accepted (probe_additional_pages (\<lambda>_. today) site_notice_and_product_on_4 []) = [2, 3, 4]"
    by code_simp
  ultimately show ?thesis by blast
qed

text \<open>
  C5 (amended): for a probed page that loaded, the stop conditions apply in this order:
  a page-not-found marker stops the probing and discards the page; otherwise, if no
  product node was detected and the no-results notice is present, probing stops and the
  page is discarded; otherwise, if no product node was detected and the page number
  exceeds 5, probing stops; otherwise the page is accepted and the next page is probed
  (an exception of the extraction stops the probing as well). In particular, when pages
  2 and 3 list products and page 4 has no product node and carries the notice, pages 2,
  3, 4 are requested, pages 2, 3 are accepted and page 5 is never requested.
\<close>

theorem probe_stop_conditions:
  "load p = Loaded soup \<Longrightarrow>
   (page_not_found_message \<in> set (strings soup) \<longrightarrow>
      probe_pages now load (p # rest) st = st\<lparr>requested := requested st @ [p]\<rparr>)
   \<and> (page_not_found_message \<notin> set (strings soup)
        \<and> select soup iluminar_product_selector = []
        \<and> find1 soup ''p.woocommerce-info'' = Inr notice
        \<and> is_no_products_notice notice \<longrightarrow>
      probe_pages now load (p # rest) st = st\<lparr>requested := requested st @ [p]\<rparr>)
   \<and> (page_not_found_message \<notin> set (strings soup)
        \<and> select soup iluminar_product_selector = []
        \<and> find1 soup ''p.woocommerce-info'' = Inr notice
        \<and> \<not> is_no_products_notice notice \<and> p > 5 \<longrightarrow>
      probe_pages now load (p # rest) st = st\<lparr>requested := requested st @ [p]\<rparr>)
   \<and> (page_not_found_message \<notin> set (strings soup)
        \<and> select soup iluminar_product_selector = []
        \<and> find1 soup ''p.woocommerce-info'' = Inr notice
        \<and> \<not> is_no_products_notice notice \<and> p \<le> 5 \<longrightarrow>
      probe_pages now load (p # rest) st =
        probe_pages now load rest
          (st\<lparr>requested := requested st @ [p], accepted := accepted st @ [p]\<rparr>))
   \<and> (page_not_found_message \<notin> set (strings soup)
        \<and> select soup iluminar_product_selector \<noteq> []
        \<and> process_products_from_soup (now p) soup = Inr products \<longrightarrow>
      probe_pages now load (p # rest) st =
        probe_pages now load rest
          (st\<lparr>requested := requested st @ [p], accepted := accepted st @ [p],
              current_url_products := current_url_products st @ products\<rparr>))
   \<and> (page_not_found_message \<notin> set (strings soup)
        \<and> process_products_from_soup (now p) soup = Inl e \<longrightarrow>
      probe_pages now load (p # rest) st = st\<lparr>requested := requested st @ [p]\<rparr>)
   \<and> (p = 4 \<and> load 2 = Loaded s2 \<and> load 3 = Loaded s3
        \<and> page_not_found_message \<notin> set (strings s2)
        \<and> select s2 iluminar_product_selector \<noteq> []
        \<and> \<not> isl (process_products_from_soup (now 2) s2)
        \<and> page_not_found_message \<notin> set (strings s3)
        \<and> select s3 iluminar_product_selector \<noteq> []
        \<and> \<not> isl (process_products_from_soup (now 3) s3)
        \<and> page_not_found_message \<notin> set (strings soup)
        \<and> select soup iluminar_product_selector = []
        \<and> find1 soup ''p.woocommerce-info'' = Inr notice
        \<and> is_no_products_notice notice \<longrightarrow>
      requested (probe_additional_pages now load page1_products) = [2, 3, 4]
      \<and> accepted (probe_additional_pages now load page1_products) = [2, 3])"
proof -
  assume loaded: "load p = Loaded soup"
  have pages: "[2..<MAX_PAGE_CHECK + 1] = 2 # 3 # 4 # [5..<101]"
    by (simp add: MAX_PAGE_CHECK_def upt_conv_Cons)
  have products_ne: "products \<noteq> []"
    if "select soup iluminar_product_selector \<noteq> []"
      "process_products_from_soup (now p) soup = Inr products"
    using that no_products_iff by blast
  have step: "?thesis" if "p \<noteq> 4 \<or> load 2 \<noteq> Loaded s2 \<or> load 3 \<noteq> Loaded s3"
    using loaded that products_ne by (auto simp: Let_def no_nodes_no_products)
  have scenario: "?thesis" if p4: "p = 4" and l2: "load 2 = Loaded s2" and l3: "load 3 = Loaded s3"
  proof -
    have l3': "load (Suc (Suc (Suc 0))) = Loaded s3"
      using l3 by (simp add: numeral_3_eq_3)
    have l4: "load 4 = Loaded soup"
      using loaded p4 by simp
    have run: "requested (probe_additional_pages now load page1_products) = [2, 3, 4]
      \<and> accepted (probe_additional_pages now load page1_products) = [2, 3]"
      if a: "page_not_found_message \<notin> set (strings s2)"
        "select s2 iluminar_product_selector \<noteq> []"
        "\<not> isl (process_products_from_soup (now 2) s2)"
        "page_not_found_message \<notin> set (strings s3)"
        "select s3 iluminar_product_selector \<noteq> []"
        "\<not> isl (process_products_from_soup (now 3) s3)"
        "page_not_found_message \<notin> set (strings soup)"
        "select soup iluminar_product_selector = []"
        "find1 soup ''p.woocommerce-info'' = Inr notice"
        "is_no_products_notice notice"
    proof -
      obtain r2 where r2: "process_products_from_soup (now 2) s2 = Inr r2"
        using a(3) by (cases "process_products_from_soup (now 2) s2") auto
      obtain r3 where r3: "process_products_from_soup (now 3) s3 = Inr r3"
        using a(6) by (cases "process_products_from_soup (now 3) s3") auto
      have r3': "process_products_from_soup (now (Suc (Suc (Suc 0)))) s3 = Inr r3"
        using r3 by (simp add: numeral_3_eq_3)
      have ne2: "r2 \<noteq> []" using no_products_iff[OF r2] a(2) by simp
      have ne3: "r3 \<noteq> []" using no_products_iff[OF r3] a(5) by simp
      show ?thesis
        unfolding probe_additional_pages_def pages
        using l2 l3 l3' l4 a r2 r3 r3' ne2 ne3 by (simp add: Let_def no_nodes_no_products)
    qed
    have single: "?thesis" if "requested (probe_additional_pages now load page1_products) = [2, 3, 4]
      \<and> accepted (probe_additional_pages now load page1_products) = [2, 3]"
      using loaded that products_ne by (auto simp: Let_def no_nodes_no_products)
    have other: "?thesis" if "\<not> (page_not_found_message \<notin> set (strings s2)
        \<and> select s2 iluminar_product_selector \<noteq> []
        \<and> \<not> isl (process_products_from_soup (now 2) s2)
        \<and> page_not_found_message \<notin> set (strings s3)
        \<and> select s3 iluminar_product_selector \<noteq> []
        \<and> \<not> isl (process_products_from_soup (now 3) s3)
        \<and> page_not_found_message \<notin> set (strings soup)
        \<and> select soup iluminar_product_selector = []
        \<and> find1 soup ''p.woocommerce-info'' = Inr notice
        \<and> is_no_products_notice notice)"
      using loaded that products_ne by (auto simp: Let_def no_nodes_no_products)
    show ?thesis
      using run single other by blast
  qed
  show ?thesis
    using step scenario by blast
qed

theorem probe_stop_conditions_witness:
  "site_notice_on_4 4 = Loaded notice_page
   \<and> page_not_found_message \<notin> set (strings notice_page)
   \<and> select notice_page iluminar_product_selector = []
   \<and> find1 notice_page ''p.woocommerce-info'' = Inr (Some no_results_notice)
   \<and> is_no_products_notice (Some no_results_notice)
   \<and> site_notice_on_4 2 = Loaded products_page
   \<and> site_notice_on_4 3 = Loaded products_page
   \<and> page_not_found_message \<notin> set (strings products_page)
   \<and> select products_page iluminar_product_selector \<noteq> []
   \<and> \<not> isl (process_products_from_soup today products_page)
   \<and> probe_pages (\<lambda>_. today) site_notice_on_4 [4, 5] \<lparr>requested = [2, 3], accepted = [2, 3], current_url_products = []\<rparr>
       = \<lparr>requested = [2, 3, 4], accepted = [2, 3], current_url_products = []\<rparr>
   \<and> requested (probe_additional_pages (\<lambda>_. today) site_notice_on_4 []) = [2, 3, 4]
   \<and> accepted (probe_additional_pages (\<lambda>_. today) site_notice_on_4 []) = [2, 3]"
proof -
  have h1: "site_notice_on_4 4 = Loaded notice_page"
    by (simp add: site_notice_on_4_def)
  have h2: "page_not_found_message \<notin> set (strings notice_page)"
    by (simp add: notice_page_def page_not_found_message_def)
  have h3: "select notice_page iluminar_product_selector = []"
    by (simp add: notice_page_def)
  have h4: "find1 notice_page ''p.woocommerce-info'' = Inr (Some no_results_notice)"
    by (simp add: notice_page_def)
  have h5: "is_no_products_notice (Some no_results_notice)"
    by code_simp
  have h6: "site_notice_on_4 2 = Loaded products_page" "site_notice_on_4 3 = Loaded products_page"
    by (simp_all add: site_notice_on_4_def)
  have h7: "page_not_found_message \<notin> set (strings products_page)"
    by (simp add: products_page_def page_not_found_message_def)
  have h8: "select products_page iluminar_product_selector \<noteq> []"
    by (simp add: products_page_def)
  have h9: "\<not> isl (process_products_from_soup today products_page)"
    by code_simp
  note t = probe_stop_conditions[where load = site_notice_on_4 and p = 4 and soup = notice_page
      and now = "\<lambda>_. today" and rest = "[5]"
      and st = "\<lparr>requested = [2, 3], accepted = [2, 3], current_url_products = []\<rparr>"
      and notice = "Some no_results_notice" and ?s2.0 = products_page and ?s3.0 = products_page
      and ?page1_products = "[]", OF h1]
  show ?thesis
    using t h1 h2 h3 h4 h5 h6 h7 h8 h9 by simp
qed

section \<open>The rows of a page, node by node\<close>

lemma iluminar_loop_prefix:
  "iluminar_loop now k acc ds = Inr rows \<Longrightarrow> \<exists>tail. rows = acc @ tail"
proof (induction ds arbitrary: k acc)
  case Nil
  then show ?case by simp
next
  case (Cons d ds)
  from Cons.prems obtain r where "iluminar_loop now (Suc k) (acc @ [r]) ds = Inr rows"
    by (auto split: sum.splits)
  from Cons.IH[OF this] obtain tail where "rows = (acc @ [r]) @ tail" ..
  then have "rows = acc @ (r # tail)" by simp
  then show ?case ..
qed

lemma electrolineas_loop_prefix:
  "electrolineas_loop now k acc ds = (rows, r) \<Longrightarrow> \<exists>tail. rows = acc @ tail"
proof (induction ds arbitrary: k acc)
  case Nil
  then show ?case by simp
next
  case (Cons d ds)
  show ?case
  proof (cases "electrolineas_item (now k) d")
    case (Inl e)
    with Cons.prems show ?thesis by simp
  next
    case (Inr r0)
    with Cons.prems have "electrolineas_loop now (Suc k) (acc @ [r0]) ds = (rows, r)"
      by simp
    from Cons.IH[OF this] obtain tail where "rows = (acc @ [r0]) @ tail" ..
    then have "rows = acc @ (r0 # tail)" by simp
    then show ?thesis ..
  qed
qed

lemma electromisiones_loop_prefix:
  "electromisiones_loop now k acc ds = (rows, r) \<Longrightarrow> \<exists>tail. rows = acc @ tail"
proof (induction ds arbitrary: k acc)
  case Nil
  then show ?case by simp
next
  case (Cons d ds)
  show ?case
  proof (cases "electromisiones_item (now k) d")
    case (Inl e)
    with Cons.prems show ?thesis by simp
  next
    case (Inr r0)
    with Cons.prems have "electromisiones_loop now (Suc k) (acc @ [r0]) ds = (rows, r)"
      by simp
    from Cons.IH[OF this] obtain tail where "rows = (acc @ [r0]) @ tail" ..
    then have "rows = acc @ (r0 # tail)" by simp
    then show ?thesis ..
  qed
qed

lemma iluminar_loop_nth:
  "iluminar_loop now k acc ds = Inr rows \<Longrightarrow> i < length ds \<Longrightarrow>
   iluminar_item (now (k + i)) (ds ! i) = Inr (rows ! (length acc + i))"
proof (induction ds arbitrary: k acc i)
  case Nil
  then show ?case by simp
next
  case (Cons d ds)
  from Cons.prems(1) obtain r where r: "iluminar_item (now k) d = Inr r"
    and loop: "iluminar_loop now (Suc k) (acc @ [r]) ds = Inr rows"
    by (auto split: sum.splits)
  show ?case
  proof (cases i)
    case 0
    from iluminar_loop_prefix[OF loop] obtain tail where "rows = (acc @ [r]) @ tail" ..
    then have "rows ! length acc = r" by simp
    with r 0 show ?thesis by simp
  next
    case (Suc j)
    then have "j < length ds" using Cons.prems(2) by simp
    from Cons.IH[OF loop this] Suc show ?thesis by simp
  qed
qed

lemma electrolineas_loop_nth:
  "electrolineas_loop now k acc ds = (rows, r) \<Longrightarrow> length acc + i < length rows \<Longrightarrow>
   i < length ds \<and> electrolineas_item (now (k + i)) (ds ! i) = Inr (rows ! (length acc + i))"
proof (induction ds arbitrary: k acc i)
  case Nil
  then show ?case by simp
next
  case (Cons d ds)
  show ?case
  proof (cases "electrolineas_item (now k) d")
    case (Inl e)
    with Cons.prems show ?thesis by simp
  next
    case (Inr r0)
    with Cons.prems(1) have loop: "electrolineas_loop now (Suc k) (acc @ [r0]) ds = (rows, r)"
      by simp
    show ?thesis
    proof (cases i)
      case 0
      from electrolineas_loop_prefix[OF loop] obtain tail where "rows = (acc @ [r0]) @ tail" ..
      then have "rows ! length acc = r0" by simp
      with Inr 0 show ?thesis by simp
    next
      case (Suc j)
      then have "length (acc @ [r0]) + j < length rows" using Cons.prems(2) by simp
      from Cons.IH[OF loop this] Suc show ?thesis by simp
    qed
  qed
qed

lemma electromisiones_loop_nth:
  "electromisiones_loop now k acc ds = (rows, r) \<Longrightarrow> length acc + i < length rows \<Longrightarrow>
   i < length ds \<and> electromisiones_item (now (k + i)) (ds ! i) = Inr (rows ! (length acc + i))"
proof (induction ds arbitrary: k acc i)
  case Nil
  then show ?case by simp
next
  case (Cons d ds)
  show ?case
  proof (cases "electromisiones_item (now k) d")
    case (Inl e)
    with Cons.prems show ?thesis by simp
  next
    case (Inr r0)
    with Cons.prems(1) have loop: "electromisiones_loop now (Suc k) (acc @ [r0]) ds = (rows, r)"
      by simp
    show ?thesis
    proof (cases i)
      case 0
      from electromisiones_loop_prefix[OF loop] obtain tail where "rows = (acc @ [r0]) @ tail" ..
      then have "rows ! length acc = r0" by simp
      with Inr 0 show ?thesis by simp
    next
      case (Suc j)
      then have "length (acc @ [r0]) + j < length rows" using Cons.prems(2) by simp
      from Cons.IH[OF loop this] Suc show ?thesis by simp
    qed
  qed
qed

lemma process_products_from_soup_nth:
  "process_products_from_soup now soup = Inr rows \<Longrightarrow>
   i < length (select soup iluminar_product_selector) \<Longrightarrow>
   iluminar_item (now i) (select soup iluminar_product_selector ! i) = Inr (rows ! i)"
  using iluminar_loop_nth[of now 0 "[]" "select soup iluminar_product_selector" rows i]
  by (auto simp: process_products_from_soup_def Let_def split: if_splits)

lemma electrolineas_page_nth:
  "electrolineas_page now acc soup = (rows, r) \<Longrightarrow> length acc + i < length rows \<Longrightarrow>
   i < length (electrolineas_product_divs soup)
   \<and> electrolineas_item (now i) (electrolineas_product_divs soup ! i) = Inr (rows ! (length acc + i))"
  using electrolineas_loop_nth[of now 0 acc "electrolineas_product_divs soup" rows r i]
  by (auto simp: electrolineas_page_def Let_def split: if_splits)

lemma electromisiones_page_nth:
  "electromisiones_page now acc soup = (rows, r) \<Longrightarrow> length acc + i < length rows \<Longrightarrow>
   i < length (select soup electromisiones_product_selector)
   \<and> electromisiones_item (now i) (select soup electromisiones_product_selector ! i)
       = Inr (rows ! (length acc + i))"
  using electromisiones_loop_nth[of now 0 acc "select soup electromisiones_product_selector" rows r i]
  by (auto simp: electromisiones_page_def Let_def split: if_splits)

text \<open>The row an iteration adds when the body of the \<open>try\<close> raised.\<close>

lemma iluminar_item_error_row:
  "iluminar_try_item f d = Inl (e, n) \<Longrightarrow> iluminar_item f d = Inr r \<Longrightarrow> r = error_row f n e"
  by (auto simp: iluminar_item_def split: sum.splits)

lemma electrolineas_item_error_row:
  "electrolineas_try_item f d = Inl (e, n) \<Longrightarrow> electrolineas_item f d = Inr r \<Longrightarrow>
   r = error_row f n e"
  by (auto simp: electrolineas_item_def split: sum.splits)

lemma electromisiones_item_error_row:
  "electromisiones_try_item f d = Inl (e, n) \<Longrightarrow> electromisiones_item f d = Inr r \<Longrightarrow>
   r = error_row f n e"
  by (auto simp: electromisiones_item_def split: sum.splits)

text \<open>What \<open>product_name\<close> holds when the body of the \<open>try\<close> raises.\<close>

lemma iluminar_name_at_raise:
  "iluminar_try_item fecha d = Inl (e, n) \<Longrightarrow>
   n = (case find1 d iluminar_name_selector of
          Inr (Some el) \<Rightarrow> strip (tag_text el) | _ \<Rightarrow> NO_DISPONIBLE)"
  by (auto simp: iluminar_try_item_def split: sum.splits option.splits)

lemma electrolineas_name_at_raise:
  "electrolineas_try_item fecha d = Inl (e, n) \<Longrightarrow>
   n = (case find1 d ''.wd-entities-title a'' of
          Inr (Some el) \<Rightarrow> strip (tag_text el)
        | Inr None \<Rightarrow>
            (case find1 d ''div.product-element-bottom > h3 > a'' of
               Inr (Some el) \<Rightarrow> strip (tag_text el) | _ \<Rightarrow> NO_DISPONIBLE)
        | Inl _ \<Rightarrow> NO_DISPONIBLE)"
  by (auto simp: electrolineas_try_item_def split: sum.splits option.splits)

lemma electromisiones_name_at_raise:
  "electromisiones_try_item fecha d = Inl (e, n) \<Longrightarrow>
   n = (case find1 d electromisiones_name_selector of
          Inr (Some el) \<Rightarrow> strip (tag_text el) | _ \<Rightarrow> NO_DISPONIBLE)"
  by (auto simp: electromisiones_try_item_def Let_def split: sum.splits option.splits)

text \<open>
  C10: in 3iluminar.py, 4electrolineas.py and 5electromisiones.py, when the body of the
  per-item \<open>try\<close> raises an exception with message \<open>e\<close> while \<open>product_name\<close> holds
  \<open>n\<close>, the row emitted for that node is the capture date, the literal
  "Error en parseo - " followed by \<open>n\<close>, and the first 50 characters of \<open>e\<close>; \<open>n\<close> is
  the stripped text of the matched name element, or the sentinel if none was extracted.
\<close>

theorem error_row_shape:
  "(process_products_from_soup now soup = Inr rows
      \<and> i < length (select soup iluminar_product_selector)
      \<and> iluminar_try_item (now i) (select soup iluminar_product_selector ! i) = Inl (e, n) \<longrightarrow>
        rows ! i = (now i, ''Error en parseo - '' @ n, take 50 e)
        \<and> length (take 50 e) \<le> 50
        \<and> n = (case find1 (select soup iluminar_product_selector ! i) iluminar_name_selector of
                 Inr (Some el) \<Rightarrow> strip (tag_text el) | _ \<Rightarrow> NO_DISPONIBLE))
   \<and> (electrolineas_page now acc soup = (rows, r)
      \<and> length acc + i < length rows
      \<and> electrolineas_try_item (now i) (electrolineas_product_divs soup ! i) = Inl (e, n) \<longrightarrow>
        rows ! (length acc + i) = (now i, ''Error en parseo - '' @ n, take 50 e)
        \<and> length (take 50 e) \<le> 50
        \<and> n = (case find1 (electrolineas_product_divs soup ! i) ''.wd-entities-title a'' of
                 Inr (Some el) \<Rightarrow> strip (tag_text el)
               | Inr None \<Rightarrow>
                   (case find1 (electrolineas_product_divs soup ! i)
                           ''div.product-element-bottom > h3 > a'' of
                      Inr (Some el) \<Rightarrow> strip (tag_text el) | _ \<Rightarrow> NO_DISPONIBLE)
               | Inl _ \<Rightarrow> NO_DISPONIBLE))
   \<and> (electromisiones_page now acc soup = (rows, r)
      \<and> length acc + i < length rows
      \<and> electromisiones_try_item (now i) (select soup electromisiones_product_selector ! i)
          = Inl (e, n) \<longrightarrow>
        rows ! (length acc + i) = (now i, ''Error en parseo - '' @ n, take 50 e)
        \<and> length (take 50 e) \<le> 50
        \<and> n = (case find1 (select soup electromisiones_product_selector ! i)
                        electromisiones_name_selector of
                 Inr (Some el) \<Rightarrow> strip (tag_text el) | _ \<Rightarrow> NO_DISPONIBLE))"
proof (intro conjI impI)
  assume a: "process_products_from_soup now soup = Inr rows
      \<and> i < length (select soup iluminar_product_selector)
      \<and> iluminar_try_item (now i) (select soup iluminar_product_selector ! i) = Inl (e, n)"
  then have "iluminar_item (now i) (select soup iluminar_product_selector ! i) = Inr (rows ! i)"
    using process_products_from_soup_nth by blast
  with a have "rows ! i = error_row (now i) n e"
    using iluminar_item_error_row by blast
  then show "rows ! i = (now i, ''Error en parseo - '' @ n, take 50 e)"
    by (simp add: error_row_def)
  show "length (take 50 e) \<le> 50" by simp
  from a show "n = (case find1 (select soup iluminar_product_selector ! i) iluminar_name_selector of
                 Inr (Some el) \<Rightarrow> strip (tag_text el) | _ \<Rightarrow> NO_DISPONIBLE)"
    using iluminar_name_at_raise by blast
next
  assume a: "electrolineas_page now acc soup = (rows, r)
      \<and> length acc + i < length rows
      \<and> electrolineas_try_item (now i) (electrolineas_product_divs soup ! i) = Inl (e, n)"
  then have "electrolineas_item (now i) (electrolineas_product_divs soup ! i)
               = Inr (rows ! (length acc + i))"
    using electrolineas_page_nth by blast
  with a have "rows ! (length acc + i) = error_row (now i) n e"
    using electrolineas_item_error_row by blast
  then show "rows ! (length acc + i) = (now i, ''Error en parseo - '' @ n, take 50 e)"
    by (simp add: error_row_def)
  show "length (take 50 e) \<le> 50" by simp
  from a show "n = (case find1 (electrolineas_product_divs soup ! i) ''.wd-entities-title a'' of
                 Inr (Some el) \<Rightarrow> strip (tag_text el)
               | Inr None \<Rightarrow>
                   (case find1 (electrolineas_product_divs soup ! i)
                           ''div.product-element-bottom > h3 > a'' of
                      Inr (Some el) \<Rightarrow> strip (tag_text el) | _ \<Rightarrow> NO_DISPONIBLE)
               | Inl _ \<Rightarrow> NO_DISPONIBLE)"
    using electrolineas_name_at_raise by blast
next
  assume a: "electromisiones_page now acc soup = (rows, r)
      \<and> length acc + i < length rows
      \<and> electromisiones_try_item (now i) (select soup electromisiones_product_selector ! i)
          = Inl (e, n)"
  then have "electromisiones_item (now i) (select soup electromisiones_product_selector ! i)
               = Inr (rows ! (length acc + i))"
    using electromisiones_page_nth by blast
  with a have "rows ! (length acc + i) = error_row (now i) n e"
    using electromisiones_item_error_row by blast
  then show "rows ! (length acc + i) = (now i, ''Error en parseo - '' @ n, take 50 e)"
    by (simp add: error_row_def)
  show "length (take 50 e) \<le> 50" by simp
  from a show "n = (case find1 (select soup electromisiones_product_selector ! i)
                        electromisiones_name_selector of
                 Inr (Some el) \<Rightarrow> strip (tag_text el) | _ \<Rightarrow> NO_DISPONIBLE)"
    using electromisiones_name_at_raise by blast
qed

theorem error_row_shape_witness:
  "process_products_from_soup today error_page =
     Inr [(''04/11/2026'', ''Error en parseo - Cable 2x1.5'',
           ''01234567890123456789012345678901234567890123456789'')]
   \<and> electrolineas_page today [] error_page =
     ([(''04/11/2026'', ''Error en parseo - Cable 2x1.5'',
        ''01234567890123456789012345678901234567890123456789'')], None)
   \<and> electromisiones_page today [] error_page =
     ([(''04/11/2026'', ''Error en parseo - Cable 2x1.5'',
        ''01234567890123456789012345678901234567890123456789'')], None)"
proof -
  let ?row = "(''04/11/2026'', ''Error en parseo - Cable 2x1.5'',
               ''01234567890123456789012345678901234567890123456789'')"
  have sel: "select error_page s = [price_raising_node]" for s
    by (simp add: error_page_def)
  have divs: "electrolineas_product_divs error_page = [price_raising_node]"
    by (simp add: electrolineas_product_divs_def sel)
  have r3: "iluminar_try_item (today 0) price_raising_node = Inl (long_message, ''Cable 2x1.5'')"
    by code_simp
  have r4: "electrolineas_try_item (today 0) price_raising_node = Inl (long_message, ''Cable 2x1.5'')"
    by code_simp
  have r5: "electromisiones_try_item (today 0) price_raising_node = Inl (long_message, ''Cable 2x1.5'')"
    by code_simp
  have render: "\<not> isl (render price_raising_node m)" for m
    by (simp add: price_raising_node_def renders_def)
  obtain rows3 where p3: "process_products_from_soup today error_page = Inr rows3"
    using process_products_from_soup_returns[of error_page today] render
    by (cases "process_products_from_soup today error_page") (auto simp: sel)
  obtain rows4 where p4: "electrolineas_page today [] error_page = (rows4, None)"
    using electrolineas_loop_returns[of "[price_raising_node]" today 0 "[]"] render
    by (cases "electrolineas_page today [] error_page")
      (auto simp: electrolineas_page_def divs Let_def)
  obtain rows5 where p5: "electromisiones_page today [] error_page = (rows5, None)"
    using electromisiones_loop_returns[of "[price_raising_node]" today 0 "[]"] render
    by (cases "electromisiones_page today [] error_page")
      (auto simp: electromisiones_page_def sel Let_def)
  have l3: "length rows3 = 1"
    using process_products_from_soup_length[OF p3] by (simp add: sel)
  have l4: "length rows4 = 1"
    using electrolineas_loop_length[of today 0 "[]" "[price_raising_node]" rows4] p4
    by (simp add: electrolineas_page_def divs Let_def)
  have l5: "length rows5 = 1"
    using electromisiones_loop_length[of today 0 "[]" "[price_raising_node]" rows5] p5
    by (simp add: electromisiones_page_def sel Let_def)
  have tk: "take 50 long_message = ''01234567890123456789012345678901234567890123456789''"
    by (simp add: long_message_def)
  note t3 = error_row_shape[where i = 0 and soup = error_page and now = today
      and e = long_message and n = "''Cable 2x1.5''" and rows = rows3,
      THEN conjunct1]
  note t4 = error_row_shape[where i = 0 and soup = error_page and now = today
      and e = long_message and n = "''Cable 2x1.5''" and rows = rows4 and acc = "[]"
      and r = None, THEN conjunct2, THEN conjunct1]
  note t5 = error_row_shape[where i = 0 and soup = error_page and now = today
      and e = long_message and n = "''Cable 2x1.5''" and rows = rows5 and acc = "[]"
      and r = None, THEN conjunct2, THEN conjunct2]
  have e3: "rows3 ! 0 = ?row"
    using t3 p3 r3 by (simp add: sel tk today_def)
  have e4: "rows4 ! 0 = ?row"
    using t4 p4 r4 l4 by (simp add: divs tk today_def)
  have e5: "rows5 ! 0 = ?row"
    using t5 p5 r5 l5 by (simp add: sel tk today_def)
  have one: "xs = [xs ! 0]" if "length xs = 1" for xs :: "row list"
    using that by (cases xs) auto
  have "rows3 = [?row]" using one[OF l3] e3 by simp
  moreover have "rows4 = [?row]" using one[OF l4] e4 by simp
  moreover have "rows5 = [?row]" using one[OF l5] e5 by simp
  ultimately show ?thesis
    using p3 p4 p5 by simp
qed

section \<open>The price of a node\<close>

lemma price_cascade_first_match:
  "i < length sels \<Longrightarrow> find1 d (sels ! i) = Inr (Some el) \<Longrightarrow>
   (\<forall>j<i. find1 d (sels ! j) = Inr None) \<Longrightarrow> price_cascade d sels = Inr (Some el)"
proof (induction sels arbitrary: i)
  case Nil
  then show ?case by simp
next
  case (Cons s sels)
  show ?case
  proof (cases i)
    case 0
    with Cons.prems show ?thesis by simp
  next
    case (Suc k)
    have "find1 d s = Inr None"
      using Cons.prems(3) Suc by auto
    moreover have "price_cascade d sels = Inr (Some el)"
    proof (rule Cons.IH)
      show "k < length sels" using Cons.prems(1) Suc by simp
      show "find1 d (sels ! k) = Inr (Some el)" using Cons.prems(2) Suc by simp
      show "\<forall>j<k. find1 d (sels ! j) = Inr None"
        using Cons.prems(3) Suc by auto
    qed
    ultimately show ?thesis by simp
  qed
qed

lemma price_cascade_no_match:
  "(\<forall>s\<in>set sels. find1 d s = Inr None) \<Longrightarrow> price_cascade d sels = Inr None"
  by (induction sels) simp_all

lemma iluminar_price:
  "iluminar_try_item fecha d = Inr (f, n, p) \<Longrightarrow>
   p = (case price_cascade d iluminar_price_selectors of
          Inr (Some el) \<Rightarrow> strip (concat (strings el)) | _ \<Rightarrow> NO_DISPONIBLE)"
  by (auto simp: iluminar_try_item_def tag_text_def split: sum.splits option.splits)

lemma electrolineas_price:
  "electrolineas_try_item fecha d = Inr (f, n, p) \<Longrightarrow>
   p = (case price_cascade d electrolineas_price_selectors of
          Inr (Some el) \<Rightarrow> strip (concat (strings el)) | _ \<Rightarrow> NO_DISPONIBLE)"
  by (auto simp: electrolineas_try_item_def tag_text_def split: sum.splits option.splits)

lemma electromisiones_price:
  "electromisiones_try_item fecha d = Inr (f, n, p) \<Longrightarrow>
   p = (case find1 d electromisiones_price_selector of
          Inr (Some el) \<Rightarrow> joined_price el | _ \<Rightarrow> NO_DISPONIBLE)"
  by (auto simp: electromisiones_try_item_def split: sum.splits option.splits)

lemma iluminar_item_no_raise:
  "iluminar_try_item fecha d = Inr r \<Longrightarrow> iluminar_item fecha d = Inr r"
  by (simp add: iluminar_item_def)

lemma electrolineas_item_no_raise:
  "electrolineas_try_item fecha d = Inr r \<Longrightarrow> electrolineas_item fecha d = Inr r"
  by (simp add: electrolineas_item_def)

lemma electromisiones_item_no_raise:
  "electromisiones_try_item fecha d = Inr r \<Longrightarrow> electromisiones_item fecha d = Inr r"
  by (simp add: electromisiones_item_def)

lemma process_three_nodes:
  "select soup iluminar_product_selector = [d1, d2, d3] \<Longrightarrow>
   iluminar_item (now 0) d1 = Inr r1 \<Longrightarrow> iluminar_item (now 1) d2 = Inr r2 \<Longrightarrow>
   iluminar_item (now 2) d3 = Inr r3 \<Longrightarrow>
   process_products_from_soup now soup = Inr [r1, r2, r3]"
  by (simp add: process_products_from_soup_def Let_def numeral_2_eq_2)

lemma electromisiones_three_nodes:
  "select soup electromisiones_product_selector = [d1, d2, d3] \<Longrightarrow>
   electromisiones_item (now 0) d1 = Inr r1 \<Longrightarrow> electromisiones_item (now 1) d2 = Inr r2 \<Longrightarrow>
   electromisiones_item (now 2) d3 = Inr r3 \<Longrightarrow>
   electromisiones_page now acc soup = (acc @ [r1, r2, r3], None)"
  by (simp add: electromisiones_page_def Let_def numeral_2_eq_2)

text \<open>
  C7 (as stated): the fragments of the matched price element are joined with single
  spaces. In 3iluminar.py this fails: the node \<open>lamp_node\<close> parses without an exception,
  its matched price element has the fragments "$" and "100", and the price of its row is
  "$100", not "$ 100".
\<close>

theorem iluminar_price_fragments_not_spaced:
  "(case price_cascade lamp_node iluminar_price_selectors of
      Inr (Some el) \<Rightarrow> strings el | _ \<Rightarrow> []) = [''$'', ''100'']
   \<and> iluminar_try_item ''04/11/2026'' lamp_node = Inr (''04/11/2026'', ''Lampara LED'', ''$100'')
   \<and> iluminar_item ''04/11/2026'' lamp_node = Inr (''04/11/2026'', ''Lampara LED'', ''$100'')
   \<and> ''$100'' \<noteq> join '' '' [''$'', ''100'']"
  by code_simp

text \<open>
  C7 (amended): for a product node that parses without an exception,
  \<^item> in 3iluminar.py and 4electrolineas.py the price selectors are tried in their
    configured order and the first match wins; the price is the whole text of the matched
    element (its fragments concatenated with no separator), stripped;
  \<^item> in 5electromisiones.py the one grouped selector is used; the price is the non-blank
    fragments of the matched element, each stripped, joined with single spaces, or the
    sentinel when every fragment is blank;
  \<^item> if no candidate matches, the price is the sentinel "No disponible", and the node
    still yields a row.
  For a page of 3 containers that parse without an exception, where container 2 matches
  no price selector and containers 1 and 3 match one, there are exactly 3 rows; row 2 has
  the sentinel price; rows 1 and 3 have the text just described, which differs from the
  sentinel unless the matched text is itself "No disponible" (or, in 5electromisiones.py,
  blank).
\<close>

theorem price_selection:
  "(iluminar_try_item fecha d = Inr (f, n, p) \<longrightarrow>
      (i < length iluminar_price_selectors
         \<and> find1 d (iluminar_price_selectors ! i) = Inr (Some el)
         \<and> (\<forall>j<i. find1 d (iluminar_price_selectors ! j) = Inr None) \<longrightarrow>
       p = strip (concat (strings el)))
      \<and> ((\<forall>s\<in>set iluminar_price_selectors. find1 d s = Inr None) \<longrightarrow> p = NO_DISPONIBLE)
      \<and> iluminar_item fecha d = Inr (f, n, p))
   \<and> (electrolineas_try_item fecha d = Inr (f, n, p) \<longrightarrow>
      (i < length electrolineas_price_selectors
         \<and> find1 d (electrolineas_price_selectors ! i) = Inr (Some el)
         \<and> (\<forall>j<i. find1 d (electrolineas_price_selectors ! j) = Inr None) \<longrightarrow>
       p = strip (concat (strings el)))
      \<and> ((\<forall>s\<in>set electrolineas_price_selectors. find1 d s = Inr None) \<longrightarrow> p = NO_DISPONIBLE)
      \<and> electrolineas_item fecha d = Inr (f, n, p))
   \<and> (electromisiones_try_item fecha d = Inr (f, n, p) \<longrightarrow>
      (find1 d electromisiones_price_selector = Inr (Some el) \<longrightarrow>
       p = (if filter (\<lambda>s. s \<noteq> []) (map strip (strings el)) = [] then NO_DISPONIBLE
            else join '' '' (filter (\<lambda>s. s \<noteq> []) (map strip (strings el)))))
      \<and> (find1 d electromisiones_price_selector = Inr None \<longrightarrow> p = NO_DISPONIBLE)
      \<and> electromisiones_item fecha d = Inr (f, n, p))
   \<and> (select soup iluminar_product_selector = [d1, d2, d3]
        \<and> iluminar_try_item (now 0) d1 = Inr (f1, n1, p1)
        \<and> iluminar_try_item (now 1) d2 = Inr (f2, n2, p2)
        \<and> iluminar_try_item (now 2) d3 = Inr (f3, n3, p3)
        \<and> price_cascade d1 iluminar_price_selectors = Inr (Some e1)
        \<and> strip (concat (strings e1)) \<noteq> NO_DISPONIBLE
        \<and> (\<forall>s\<in>set iluminar_price_selectors. find1 d2 s = Inr None)
        \<and> price_cascade d3 iluminar_price_selectors = Inr (Some e3)
        \<and> strip (concat (strings e3)) \<noteq> NO_DISPONIBLE \<longrightarrow>
      process_products_from_soup now soup = Inr [(f1, n1, p1), (f2, n2, p2), (f3, n3, p3)]
      \<and> p2 = NO_DISPONIBLE \<and> p1 \<noteq> NO_DISPONIBLE \<and> p3 \<noteq> NO_DISPONIBLE)
   \<and> (select soup electromisiones_product_selector = [d1, d2, d3]
        \<and> electromisiones_try_item (now 0) d1 = Inr (f1, n1, p1)
        \<and> electromisiones_try_item (now 1) d2 = Inr (f2, n2, p2)
        \<and> electromisiones_try_item (now 2) d3 = Inr (f3, n3, p3)
        \<and> find1 d1 electromisiones_price_selector = Inr (Some e1)
        \<and> joined_price e1 \<noteq> NO_DISPONIBLE
        \<and> find1 d2 electromisiones_price_selector = Inr None
        \<and> find1 d3 electromisiones_price_selector = Inr (Some e3)
        \<and> joined_price e3 \<noteq> NO_DISPONIBLE \<longrightarrow>
      electromisiones_page now [] soup = ([(f1, n1, p1), (f2, n2, p2), (f3, n3, p3)], None)
      \<and> p2 = NO_DISPONIBLE \<and> p1 \<noteq> NO_DISPONIBLE \<and> p3 \<noteq> NO_DISPONIBLE)"
proof -
  have c3: "iluminar_try_item fecha d = Inr (f, n, p) \<longrightarrow>
      (i < length iluminar_price_selectors
         \<and> find1 d (iluminar_price_selectors ! i) = Inr (Some el)
         \<and> (\<forall>j<i. find1 d (iluminar_price_selectors ! j) = Inr None) \<longrightarrow>
       p = strip (concat (strings el)))
      \<and> ((\<forall>s\<in>set iluminar_price_selectors. find1 d s = Inr None) \<longrightarrow> p = NO_DISPONIBLE)
      \<and> iluminar_item fecha d = Inr (f, n, p)"
  proof (intro impI conjI)
    assume a: "iluminar_try_item fecha d = Inr (f, n, p)"
    show "iluminar_item fecha d = Inr (f, n, p)"
      using a by (rule iluminar_item_no_raise)
    { assume "i < length iluminar_price_selectors
         \<and> find1 d (iluminar_price_selectors ! i) = Inr (Some el)
         \<and> (\<forall>j<i. find1 d (iluminar_price_selectors ! j) = Inr None)"
      then have "price_cascade d iluminar_price_selectors = Inr (Some el)"
        using price_cascade_first_match by blast
      then show "p = strip (concat (strings el))"
        using iluminar_price[OF a] by simp }
    { assume "\<forall>s\<in>set iluminar_price_selectors. find1 d s = Inr None"
      then have "price_cascade d iluminar_price_selectors = Inr None"
        by (rule price_cascade_no_match)
      then show "p = NO_DISPONIBLE"
        using iluminar_price[OF a] by simp }
  qed
  have c4: "electrolineas_try_item fecha d = Inr (f, n, p) \<longrightarrow>
      (i < length electrolineas_price_selectors
         \<and> find1 d (electrolineas_price_selectors ! i) = Inr (Some el)
         \<and> (\<forall>j<i. find1 d (electrolineas_price_selectors ! j) = Inr None) \<longrightarrow>
       p = strip (concat (strings el)))
      \<and> ((\<forall>s\<in>set electrolineas_price_selectors. find1 d s = Inr None) \<longrightarrow> p = NO_DISPONIBLE)
      \<and> electrolineas_item fecha d = Inr (f, n, p)"
  proof (intro impI conjI)
    assume a: "electrolineas_try_item fecha d = Inr (f, n, p)"
    show "electrolineas_item fecha d = Inr (f, n, p)"
      using a by (rule electrolineas_item_no_raise)
    { assume "i < length electrolineas_price_selectors
         \<and> find1 d (electrolineas_price_selectors ! i) = Inr (Some el)
         \<and> (\<forall>j<i. find1 d (electrolineas_price_selectors ! j) = Inr None)"
      then have "price_cascade d electrolineas_price_selectors = Inr (Some el)"
        using price_cascade_first_match by blast
      then show "p = strip (concat (strings el))"
        using electrolineas_price[OF a] by simp }
    { assume "\<forall>s\<in>set electrolineas_price_selectors. find1 d s = Inr None"
      then have "price_cascade d electrolineas_price_selectors = Inr None"
        by (rule price_cascade_no_match)
      then show "p = NO_DISPONIBLE"
        using electrolineas_price[OF a] by simp }
  qed
  have c5: "electromisiones_try_item fecha d = Inr (f, n, p) \<longrightarrow>
      (find1 d electromisiones_price_selector = Inr (Some el) \<longrightarrow>
       p = (if filter (\<lambda>s. s \<noteq> []) (map strip (strings el)) = [] then NO_DISPONIBLE
            else join '' '' (filter (\<lambda>s. s \<noteq> []) (map strip (strings el)))))
      \<and> (find1 d electromisiones_price_selector = Inr None \<longrightarrow> p = NO_DISPONIBLE)
      \<and> electromisiones_item fecha d = Inr (f, n, p)"
  proof (intro impI conjI)
    assume a: "electromisiones_try_item fecha d = Inr (f, n, p)"
    show "electromisiones_item fecha d = Inr (f, n, p)"
      using a by (rule electromisiones_item_no_raise)
    { assume "find1 d electromisiones_price_selector = Inr (Some el)"
      then show "p = (if filter (\<lambda>s. s \<noteq> []) (map strip (strings el)) = [] then NO_DISPONIBLE
            else join '' '' (filter (\<lambda>s. s \<noteq> []) (map strip (strings el))))"
        using electromisiones_price[OF a]
        by (simp add: joined_price_def price_text_parts_def Let_def) }
    { assume "find1 d electromisiones_price_selector = Inr None"
      then show "p = NO_DISPONIBLE"
        using electromisiones_price[OF a] by simp }
  qed
  have s3: "select soup iluminar_product_selector = [d1, d2, d3]
        \<and> iluminar_try_item (now 0) d1 = Inr (f1, n1, p1)
        \<and> iluminar_try_item (now 1) d2 = Inr (f2, n2, p2)
        \<and> iluminar_try_item (now 2) d3 = Inr (f3, n3, p3)
        \<and> price_cascade d1 iluminar_price_selectors = Inr (Some e1)
        \<and> strip (concat (strings e1)) \<noteq> NO_DISPONIBLE
        \<and> (\<forall>s\<in>set iluminar_price_selectors. find1 d2 s = Inr None)
        \<and> price_cascade d3 iluminar_price_selectors = Inr (Some e3)
        \<and> strip (concat (strings e3)) \<noteq> NO_DISPONIBLE \<longrightarrow>
      process_products_from_soup now soup = Inr [(f1, n1, p1), (f2, n2, p2), (f3, n3, p3)]
      \<and> p2 = NO_DISPONIBLE \<and> p1 \<noteq> NO_DISPONIBLE \<and> p3 \<noteq> NO_DISPONIBLE"
  proof (intro impI)
    assume a: "select soup iluminar_product_selector = [d1, d2, d3]
        \<and> iluminar_try_item (now 0) d1 = Inr (f1, n1, p1)
        \<and> iluminar_try_item (now 1) d2 = Inr (f2, n2, p2)
        \<and> iluminar_try_item (now 2) d3 = Inr (f3, n3, p3)
        \<and> price_cascade d1 iluminar_price_selectors = Inr (Some e1)
        \<and> strip (concat (strings e1)) \<noteq> NO_DISPONIBLE
        \<and> (\<forall>s\<in>set iluminar_price_selectors. find1 d2 s = Inr None)
        \<and> price_cascade d3 iluminar_price_selectors = Inr (Some e3)
        \<and> strip (concat (strings e3)) \<noteq> NO_DISPONIBLE"
    then have t: "iluminar_try_item (now 0) d1 = Inr (f1, n1, p1)"
      "iluminar_try_item (now 1) d2 = Inr (f2, n2, p2)"
      "iluminar_try_item (now 2) d3 = Inr (f3, n3, p3)"
      by simp_all
    have rows: "process_products_from_soup now soup = Inr [(f1, n1, p1), (f2, n2, p2), (f3, n3, p3)]"
      using a process_three_nodes[OF _ iluminar_item_no_raise[OF t(1)]
          iluminar_item_no_raise[OF t(2)] iluminar_item_no_raise[OF t(3)]]
      by simp
    have "price_cascade d2 iluminar_price_selectors = Inr None"
      using a price_cascade_no_match by blast
    then have p2: "p2 = NO_DISPONIBLE"
      using iluminar_price[OF t(2)] by simp
    have p1: "p1 \<noteq> NO_DISPONIBLE"
      using iluminar_price[OF t(1)] a by simp
    have p3: "p3 \<noteq> NO_DISPONIBLE"
      using iluminar_price[OF t(3)] a by simp
    show "process_products_from_soup now soup = Inr [(f1, n1, p1), (f2, n2, p2), (f3, n3, p3)]
      \<and> p2 = NO_DISPONIBLE \<and> p1 \<noteq> NO_DISPONIBLE \<and> p3 \<noteq> NO_DISPONIBLE"
      using rows p1 p2 p3 by simp
  qed
  have s5: "select soup electromisiones_product_selector = [d1, d2, d3]
        \<and> electromisiones_try_item (now 0) d1 = Inr (f1, n1, p1)
        \<and> electromisiones_try_item (now 1) d2 = Inr (f2, n2, p2)
        \<and> electromisiones_try_item (now 2) d3 = Inr (f3, n3, p3)
        \<and> find1 d1 electromisiones_price_selector = Inr (Some e1)
        \<and> joined_price e1 \<noteq> NO_DISPONIBLE
        \<and> find1 d2 electromisiones_price_selector = Inr None
        \<and> find1 d3 electromisiones_price_selector = Inr (Some e3)
        \<and> joined_price e3 \<noteq> NO_DISPONIBLE \<longrightarrow>
      electromisiones_page now [] soup = ([(f1, n1, p1), (f2, n2, p2), (f3, n3, p3)], None)
      \<and> p2 = NO_DISPONIBLE \<and> p1 \<noteq> NO_DISPONIBLE \<and> p3 \<noteq> NO_DISPONIBLE"
  proof (intro impI)
    assume a: "select soup electromisiones_product_selector = [d1, d2, d3]
        \<and> electromisiones_try_item (now 0) d1 = Inr (f1, n1, p1)
        \<and> electromisiones_try_item (now 1) d2 = Inr (f2, n2, p2)
        \<and> electromisiones_try_item (now 2) d3 = Inr (f3, n3, p3)
        \<and> find1 d1 electromisiones_price_selector = Inr (Some e1)
        \<and> joined_price e1 \<noteq> NO_DISPONIBLE
        \<and> find1 d2 electromisiones_price_selector = Inr None
        \<and> find1 d3 electromisiones_price_selector = Inr (Some e3)
        \<and> joined_price e3 \<noteq> NO_DISPONIBLE"
    then have t: "electromisiones_try_item (now 0) d1 = Inr (f1, n1, p1)"
      "electromisiones_try_item (now 1) d2 = Inr (f2, n2, p2)"
      "electromisiones_try_item (now 2) d3 = Inr (f3, n3, p3)"
      by simp_all
    have rows: "electromisiones_page now [] soup = ([(f1, n1, p1), (f2, n2, p2), (f3, n3, p3)], None)"
      using a electromisiones_three_nodes[OF _ electromisiones_item_no_raise[OF t(1)]
          electromisiones_item_no_raise[OF t(2)] electromisiones_item_no_raise[OF t(3)],
          of soup "[]"]
      by simp
    have p2: "p2 = NO_DISPONIBLE"
      using electromisiones_price[OF t(2)] a by simp
    have p1: "p1 \<noteq> NO_DISPONIBLE"
      using electromisiones_price[OF t(1)] a by simp
    have p3: "p3 \<noteq> NO_DISPONIBLE"
      using electromisiones_price[OF t(3)] a by simp
    show "electromisiones_page now [] soup = ([(f1, n1, p1), (f2, n2, p2), (f3, n3, p3)], None)
      \<and> p2 = NO_DISPONIBLE \<and> p1 \<noteq> NO_DISPONIBLE \<and> p3 \<noteq> NO_DISPONIBLE"
      using rows p1 p2 p3 by simp
  qed
  show ?thesis
    using c3 c4 c5 s3 s5 by (intro conjI)
qed

theorem price_selection_witness:
  "iluminar_try_item ''04/11/2026'' priced_node = Inr (''04/11/2026'', ''Cable 2x1.5'', ''$  100'')
   \<and> iluminar_item ''04/11/2026'' priced_node =
       Inr (''04/11/2026'', ''Cable 2x1.5'', ''$  100'')
   \<and> electrolineas_item ''04/11/2026'' no_price_node =
       Inr (''04/11/2026'', ''No disponible'', ''No disponible'')
   \<and> electromisiones_item ''04/11/2026'' priced_node =
       Inr (''04/11/2026'', ''Cable 2x1.5'', ''$ 100'')
   \<and> process_products_from_soup today three_products_page =
       Inr [(''04/11/2026'', ''Cable 2x1.5'', ''$  100''),
            (''04/11/2026'', ''Caja estanca'', ''No disponible''),
            (''04/11/2026'', ''Cable 2x1.5'', ''$  100'')]
   \<and> electromisiones_page today [] three_products_page =
       ([(''04/11/2026'', ''Cable 2x1.5'', ''$ 100''),
         (''04/11/2026'', ''Caja estanca'', ''No disponible''),
         (''04/11/2026'', ''Cable 2x1.5'', ''$ 100'')], None)"
proof -
  let ?f = "''04/11/2026''"
  let ?el = "leaf [''$ '', '' '', ''100'']"
  have sel: "select three_products_page s = [priced_node, no_price_node, priced_node]" for s
    by (simp add: three_products_page_def)
  have now: "today k = ?f" for k
    by (simp add: today_def)
  have i3: "iluminar_try_item ?f priced_node = Inr (?f, ''Cable 2x1.5'', ''$  100'')"
    by code_simp
  have i3n: "iluminar_try_item ?f no_price_node = Inr (?f, ''Caja estanca'', ''No disponible'')"
    by code_simp
  have i4n: "electrolineas_try_item ?f no_price_node = Inr (?f, ''No disponible'', ''No disponible'')"
    by code_simp
  have i5: "electromisiones_try_item ?f priced_node = Inr (?f, ''Cable 2x1.5'', ''$ 100'')"
    by code_simp
  have i5n: "electromisiones_try_item ?f no_price_node = Inr (?f, ''Caja estanca'', ''No disponible'')"
    by code_simp
  have idx: "(3::nat) < length iluminar_price_selectors"
    "iluminar_price_selectors ! 3 = ''div.price-wrapper bdi''"
    by (simp_all add: iluminar_price_selectors_def)
  have m3: "find1 priced_node (iluminar_price_selectors ! 3) = Inr (Some ?el)"
    by (simp add: idx priced_node_def iluminar_name_selector_def electromisiones_name_selector_def)
  have before: "\<forall>j<3. find1 priced_node (iluminar_price_selectors ! j) = Inr None"
  proof (intro allI impI)
    fix j :: nat assume "j < 3"
    then have "j = 0 \<or> j = 1 \<or> j = 2" by arith
    then show "find1 priced_node (iluminar_price_selectors ! j) = Inr None"
      by (auto simp: iluminar_price_selectors_def priced_node_def iluminar_name_selector_def
          electromisiones_name_selector_def electromisiones_price_selector_def)
  qed
  have c3: "price_cascade priced_node iluminar_price_selectors = Inr (Some ?el)"
    using price_cascade_first_match[OF idx(1) m3 before] .
  have none3: "\<forall>s\<in>set iluminar_price_selectors. find1 no_price_node s = Inr None"
    by (simp add: iluminar_price_selectors_def no_price_node_def iluminar_name_selector_def
        electromisiones_name_selector_def)
  have none4: "\<forall>s\<in>set electrolineas_price_selectors. find1 no_price_node s = Inr None"
    by (simp add: electrolineas_price_selectors_def no_price_node_def iluminar_name_selector_def
        electromisiones_name_selector_def)
  have m5: "find1 priced_node electromisiones_price_selector = Inr (Some ?el)"
    by (simp add: priced_node_def electromisiones_price_selector_def iluminar_name_selector_def
        electromisiones_name_selector_def)
  have m5n: "find1 no_price_node electromisiones_price_selector = Inr None"
    by (simp add: no_price_node_def electromisiones_price_selector_def iluminar_name_selector_def
        electromisiones_name_selector_def)
  have ne3: "strip (concat (strings ?el)) \<noteq> NO_DISPONIBLE"
    by code_simp
  have ne5: "joined_price ?el \<noteq> NO_DISPONIBLE"
    by code_simp
  note single = price_selection[where fecha = ?f and d = priced_node and f = ?f
      and n = "''Cable 2x1.5''" and p = "''$  100''" and i = 3 and el = ?el]
  note single4 = price_selection[where fecha = ?f and d = no_price_node and f = ?f
      and n = "''No disponible''" and p = "''No disponible''"]
  note single5 = price_selection[where fecha = ?f and d = priced_node and f = ?f
      and n = "''Cable 2x1.5''" and p = "''$ 100''" and el = ?el]
  note page3 = price_selection[where soup = three_products_page and now = today
      and ?d1.0 = priced_node and ?d2.0 = no_price_node and ?d3.0 = priced_node
      and ?f1.0 = ?f and ?n1.0 = "''Cable 2x1.5''" and ?p1.0 = "''$  100''"
      and ?f2.0 = ?f and ?n2.0 = "''Caja estanca''" and ?p2.0 = "''No disponible''"
      and ?f3.0 = ?f and ?n3.0 = "''Cable 2x1.5''" and ?p3.0 = "''$  100''"
      and ?e1.0 = ?el and ?e3.0 = ?el]
  note page5 = price_selection[where soup = three_products_page and now = today
      and ?d1.0 = priced_node and ?d2.0 = no_price_node and ?d3.0 = priced_node
      and ?f1.0 = ?f and ?n1.0 = "''Cable 2x1.5''" and ?p1.0 = "''$ 100''"
      and ?f2.0 = ?f and ?n2.0 = "''Caja estanca''" and ?p2.0 = "''No disponible''"
      and ?f3.0 = ?f and ?n3.0 = "''Cable 2x1.5''" and ?p3.0 = "''$ 100''"
      and ?e1.0 = ?el and ?e3.0 = ?el]
  have a: "iluminar_item ?f priced_node = Inr (?f, ''Cable 2x1.5'', ''$  100'')"
    using single i3 by blast
  have b: "electrolineas_item ?f no_price_node = Inr (?f, ''No disponible'', ''No disponible'')"
    using single4 i4n by blast
  have c: "electromisiones_item ?f priced_node = Inr (?f, ''Cable 2x1.5'', ''$ 100'')"
    using single5 i5 by blast
  have d: "process_products_from_soup today three_products_page =
       Inr [(?f, ''Cable 2x1.5'', ''$  100''), (?f, ''Caja estanca'', ''No disponible''),
            (?f, ''Cable 2x1.5'', ''$  100'')]"
    using page3 sel now i3 i3n c3 none3 ne3 by simp
  have e: "electromisiones_page today [] three_products_page =
       ([(?f, ''Cable 2x1.5'', ''$ 100''), (?f, ''Caja estanca'', ''No disponible''),
         (?f, ''Cable 2x1.5'', ''$ 100'')], None)"
    using page5 sel now i5 i5n m5 m5n ne5 by simp
  show ?thesis
    using i3 a b c d e by simp
qed

section \<open>Two extraction runs over the same page\<close>

text \<open>The clock reading only fills the first field of the row of an iteration; whether
  the iteration raises, and the other two fields, do not depend on it.\<close>

lemma iluminar_item_clock:
  "iluminar_item f d = map_sum id (\<lambda>r. (f, snd r)) (iluminar_item f' d)"
  by (auto simp: iluminar_item_def iluminar_try_item_def error_row_def
      split: sum.splits option.splits prod.splits)

lemma electromisiones_item_clock:
  "electromisiones_item f d = map_sum id (\<lambda>r. (f, snd r)) (electromisiones_item f' d)"
  by (auto simp: electromisiones_item_def electromisiones_try_item_def error_row_def
      split: sum.splits option.splits prod.splits)

lemma iluminar_loop_fields:
  "map snd acc1 = map snd acc2 \<Longrightarrow>
   map_sum id (map snd) (iluminar_loop now1 k acc1 ds) =
   map_sum id (map snd) (iluminar_loop now2 k acc2 ds)"
proof (induction ds arbitrary: k acc1 acc2)
  case Nil
  then show ?case by simp
next
  case (Cons d ds)
  note clock = iluminar_item_clock[of "now1 k" d "now2 k"]
  show ?case
  proof (cases "iluminar_item (now2 k) d")
    case (Inl e)
    with clock show ?thesis by simp
  next
    case (Inr r)
    with clock have one: "iluminar_item (now1 k) d = Inr (now1 k, snd r)" by simp
    have "map snd (acc1 @ [(now1 k, snd r)]) = map snd (acc2 @ [r])"
      using Cons.prems by simp
    from Cons.IH[OF this] one Inr show ?thesis by simp
  qed
qed

lemma iluminar_loop_dates:
  "iluminar_loop now k acc ds = Inr rows \<Longrightarrow>
   map fst rows = map fst acc @ map now [k..<k + length ds]"
proof (induction ds arbitrary: k acc)
  case Nil
  then show ?case by simp
next
  case (Cons d ds)
  from Cons.prems obtain r where r: "iluminar_item (now k) d = Inr r"
    and loop: "iluminar_loop now (Suc k) (acc @ [r]) ds = Inr rows"
    by (auto split: sum.splits)
  have date: "fst r = now k"
    using iluminar_item_clock[of "now k" d "now k"] r by (cases r) auto
  have eq: "[k..<k + length (d # ds)] = k # [Suc k..<Suc k + length ds]"
    using upt_conv_Cons[of k "k + length (d # ds)"] by simp
  have "map fst rows = map fst (acc @ [r]) @ map now [Suc k..<Suc k + length ds]"
    by (rule Cons.IH[OF loop])
  also have "\<dots> = map fst acc @ map now (k # [Suc k..<Suc k + length ds])"
    using date by simp
  also have "\<dots> = map fst acc @ map now [k..<k + length (d # ds)]"
    by (simp only: eq)
  finally show ?case .
qed

lemma iluminar_loop_same_clock:
  "(\<forall>i<length ds. now1 (k + i) = now2 (k + i)) \<Longrightarrow>
   iluminar_loop now1 k acc ds = iluminar_loop now2 k acc ds"
proof (induction ds arbitrary: k acc)
  case Nil
  show ?case by simp
next
  case (Cons d ds)
  have here: "now1 k = now2 k"
    using Cons.prems by (metis add.right_neutral length_greater_0_conv list.distinct(1))
  have later: "\<forall>i<length ds. now1 (Suc k + i) = now2 (Suc k + i)"
  proof (intro allI impI)
    fix i assume "i < length ds"
    then have "Suc i < length (d # ds)" by simp
    with Cons.prems have "now1 (k + Suc i) = now2 (k + Suc i)" by blast
    then show "now1 (Suc k + i) = now2 (Suc k + i)" by simp
  qed
  show ?case
    using here Cons.IH[OF later] by (simp split: sum.splits)
qed

lemma electromisiones_loop_fields:
  "map snd acc1 = map snd acc2 \<Longrightarrow>
   map snd (fst (electromisiones_loop now1 k acc1 ds)) =
   map snd (fst (electromisiones_loop now2 k acc2 ds))
   \<and> snd (electromisiones_loop now1 k acc1 ds) = snd (electromisiones_loop now2 k acc2 ds)"
proof (induction ds arbitrary: k acc1 acc2)
  case Nil
  then show ?case by simp
next
  case (Cons d ds)
  note clock = electromisiones_item_clock[of "now1 k" d "now2 k"]
  show ?case
  proof (cases "electromisiones_item (now2 k) d")
    case (Inl e)
    with clock Cons.prems show ?thesis by simp
  next
    case (Inr r)
    with clock have one: "electromisiones_item (now1 k) d = Inr (now1 k, snd r)" by simp
    have "map snd (acc1 @ [(now1 k, snd r)]) = map snd (acc2 @ [r])"
      using Cons.prems by simp
    from Cons.IH[OF this] one Inr show ?thesis by simp
  qed
qed

lemma electromisiones_loop_dates:
  "map fst (fst (electromisiones_loop now k acc ds)) =
   map fst acc @
   map now [k..<k + (length (fst (electromisiones_loop now k acc ds)) - length acc)]"
proof (induction ds arbitrary: k acc)
  case Nil
  show ?case by simp
next
  case (Cons d ds)
  show ?case
  proof (cases "electromisiones_item (now k) d")
    case (Inl e)
    then show ?thesis by simp
  next
    case (Inr r)
    have date: "fst r = now k"
      using electromisiones_item_clock[of "now k" d "now k"] Inr by (cases r) auto
    obtain rows x where loop: "electromisiones_loop now (Suc k) (acc @ [r]) ds = (rows, x)"
      by (cases "electromisiones_loop now (Suc k) (acc @ [r]) ds") auto
    from electromisiones_loop_prefix[OF loop] obtain tail where tail: "rows = (acc @ [r]) @ tail" ..
    have whole: "fst (electromisiones_loop now k acc (d # ds)) = rows"
      using Inr loop by simp
    have n1: "length rows - length (acc @ [r]) = length tail"
      and n2: "length rows - length acc = Suc (length tail)"
      using tail by simp_all
    have eq: "[k..<k + Suc (length tail)] = k # [Suc k..<Suc k + length tail]"
      using upt_conv_Cons[of k "k + Suc (length tail)"] by simp
    have "map fst rows = map fst (acc @ [r]) @ map now [Suc k..<Suc k + length tail]"
      using Cons.IH[of "Suc k" "acc @ [r]"] loop n1 by simp
    also have "\<dots> = map fst acc @ map now (k # [Suc k..<Suc k + length tail])"
      using date by simp
    also have "\<dots> = map fst acc @ map now [k..<k + Suc (length tail)]"
      by (simp only: eq)
    finally show ?thesis
      unfolding whole n2 .
  qed
qed

lemma electromisiones_loop_same_clock:
  "(\<forall>i<length ds. now1 (k + i) = now2 (k + i)) \<Longrightarrow>
   electromisiones_loop now1 k acc ds = electromisiones_loop now2 k acc ds"
proof (induction ds arbitrary: k acc)
  case Nil
  show ?case by simp
next
  case (Cons d ds)
  have here: "now1 k = now2 k"
    using Cons.prems by (metis add.right_neutral length_greater_0_conv list.distinct(1))
  have later: "\<forall>i<length ds. now1 (Suc k + i) = now2 (Suc k + i)"
  proof (intro allI impI)
    fix i assume "i < length ds"
    then have "Suc i < length (d # ds)" by simp
    with Cons.prems have "now1 (k + Suc i) = now2 (k + Suc i)" by blast
    then show "now1 (Suc k + i) = now2 (Suc k + i)" by simp
  qed
  show ?case
    using here Cons.IH[OF later] by (simp split: sum.splits)
qed

text \<open>
  C9 (as stated): two runs over identical markup with identical selectors give identical
  rows, capture date included. The capture date is read from the clock, not from the
  markup: the same page extracted on two days gives two different row lists.
\<close>

theorem capture_date_differs_between_runs:
  "process_products_from_soup (\<lambda>k. ''04/11/2026'') products_page =
     Inr [(''04/11/2026'', ''Lampara LED'', ''$100'')]
   \<and> process_products_from_soup (\<lambda>k. ''05/11/2026'') products_page =
     Inr [(''05/11/2026'', ''Lampara LED'', ''$100'')]
   \<and> process_products_from_soup (\<lambda>k. ''04/11/2026'') products_page \<noteq>
     process_products_from_soup (\<lambda>k. ''05/11/2026'') products_page"
  by code_simp

text \<open>
  C9 (amended): for any two extraction runs over identical markup with the same selector
  configuration (3iluminar.py, 5electromisiones.py), the two runs end the same way and
  their rows agree in number, order, description and price whatever the clock shows; the
  capture-date field of the row of node \<open>i\<close> is the clock reading taken for that node;
  so the two results are identical when the two runs read the same dates.
\<close>

theorem extraction_two_runs:
  "map_sum id (map snd) (process_products_from_soup now1 soup) =
     map_sum id (map snd) (process_products_from_soup now2 soup)
   \<and> (process_products_from_soup now1 soup = Inr rows \<longrightarrow>
        map fst rows = map now1 [0..<length (select soup iluminar_product_selector)])
   \<and> ((\<forall>i<length (select soup iluminar_product_selector). now1 i = now2 i) \<longrightarrow>
        process_products_from_soup now1 soup = process_products_from_soup now2 soup)
   \<and> map snd (fst (electromisiones_page now1 [] soup)) =
       map snd (fst (electromisiones_page now2 [] soup))
   \<and> snd (electromisiones_page now1 [] soup) = snd (electromisiones_page now2 [] soup)
   \<and> map fst (fst (electromisiones_page now1 [] soup)) =
       map now1 [0..<length (fst (electromisiones_page now1 [] soup))]
   \<and> (snd (electromisiones_page now1 [] soup) = None \<longrightarrow>
        map fst (fst (electromisiones_page now1 [] soup)) =
          map now1 [0..<length (select soup electromisiones_product_selector)])
   \<and> ((\<forall>i<length (select soup electromisiones_product_selector). now1 i = now2 i) \<longrightarrow>
        electromisiones_page now1 [] soup = electromisiones_page now2 [] soup)"
proof (intro conjI impI)
  show "map_sum id (map snd) (process_products_from_soup now1 soup) =
        map_sum id (map snd) (process_products_from_soup now2 soup)"
    using iluminar_loop_fields[of "[]" "[]" now1 0 "select soup iluminar_product_selector" now2]
    by (simp add: process_products_from_soup_def Let_def)
  show "map snd (fst (electromisiones_page now1 [] soup)) =
        map snd (fst (electromisiones_page now2 [] soup))"
    using electromisiones_loop_fields[of "[]" "[]" now1 0
        "select soup electromisiones_product_selector" now2]
    by (simp add: electromisiones_page_def Let_def)
  show "snd (electromisiones_page now1 [] soup) = snd (electromisiones_page now2 [] soup)"
    using electromisiones_loop_fields[of "[]" "[]" now1 0
        "select soup electromisiones_product_selector" now2]
    by (simp add: electromisiones_page_def Let_def)
  show dates: "map fst (fst (electromisiones_page now1 [] soup)) =
       map now1 [0..<length (fst (electromisiones_page now1 [] soup))]"
    using electromisiones_loop_dates[of now1 0 "[]" "select soup electromisiones_product_selector"]
    by (simp add: electromisiones_page_def Let_def)
  { assume "snd (electromisiones_page now1 [] soup) = None"
    then have "electromisiones_page now1 [] soup = (fst (electromisiones_page now1 [] soup), None)"
      by (metis prod.collapse)
    then have "length (fst (electromisiones_page now1 [] soup)) =
               length (select soup electromisiones_product_selector)"
      by (auto simp: electromisiones_page_def Let_def split: if_splits
          dest: electromisiones_loop_length)
    with dates show "map fst (fst (electromisiones_page now1 [] soup)) =
          map now1 [0..<length (select soup electromisiones_product_selector)]"
      by simp }
next
  assume "process_products_from_soup now1 soup = Inr rows"
  then show "map fst rows = map now1 [0..<length (select soup iluminar_product_selector)]"
    using iluminar_loop_dates[of now1 0 "[]" "select soup iluminar_product_selector" rows]
    by (auto simp: process_products_from_soup_def Let_def split: if_splits)
next
  assume "\<forall>i<length (select soup iluminar_product_selector). now1 i = now2 i"
  then show "process_products_from_soup now1 soup = process_products_from_soup now2 soup"
    using iluminar_loop_same_clock[of "select soup iluminar_product_selector" now1 0 now2 "[]"]
    by (simp add: process_products_from_soup_def Let_def)
next
  assume "\<forall>i<length (select soup electromisiones_product_selector). now1 i = now2 i"
  then show "electromisiones_page now1 [] soup = electromisiones_page now2 [] soup"
    using electromisiones_loop_same_clock[of "select soup electromisiones_product_selector"
        now1 0 now2 "[]"]
    by (simp add: electromisiones_page_def Let_def)
qed

theorem extraction_two_runs_witness:
  "length (select three_products_page iluminar_product_selector) = 3
   \<and> length (select three_products_page electromisiones_product_selector) = 3
   \<and> process_products_from_soup today three_products_page =
       process_products_from_soup (\<lambda>k. if k < 3 then ''04/11/2026'' else ''05/11/2026'')
         three_products_page
   \<and> electromisiones_page today [] three_products_page =
       electromisiones_page (\<lambda>k. if k < 3 then ''04/11/2026'' else ''05/11/2026'') []
         three_products_page
   \<and> map_sum id (map fst) (process_products_from_soup today three_products_page) =
       Inr [''04/11/2026'', ''04/11/2026'', ''04/11/2026'']"
proof -
  have len: "length (select three_products_page s) = 3" for s
    by (simp add: three_products_page_def)
  have same: "\<forall>i<length (select three_products_page s).
                today i = (if i < 3 then ''04/11/2026'' else ''05/11/2026'')" for s
    by (simp add: len today_def)
  have upt3: "[0..<3] = [0, 1, 2::nat]"
    by (simp add: upt_rec)
  have "\<not> isl (process_products_from_soup today three_products_page)"
    by (rule process_products_from_soup_returns)
      (simp add: three_products_page_def priced_node_def no_price_node_def renders_def)
  then obtain rows where rows: "process_products_from_soup today three_products_page = Inr rows"
    by (cases "process_products_from_soup today three_products_page") auto
  note t = extraction_two_runs[where ?now1.0 = today and soup = three_products_page
      and ?now2.0 = "\<lambda>k. if k < 3 then ''04/11/2026'' else ''05/11/2026''" and rows = rows]
  have dates: "map_sum id (map fst) (process_products_from_soup today three_products_page) =
       Inr [''04/11/2026'', ''04/11/2026'', ''04/11/2026'']"
    using t[THEN conjunct2, THEN conjunct1] rows by (simp add: len upt3 today_def)
  show ?thesis
    using t same len dates by blast
qed

section \<open>Link harvesting\<close>

lemma add_links_set:
  "add_links links urls =
     urls \<union> {href. \<exists>a\<in>set links. attrs a ''href'' = Some href}"
  by (induction links arbitrary: urls) (auto split: option.splits)

lemma finite_add_links: "finite urls \<Longrightarrow> finite (add_links links urls)"
  by (induction links arbitrary: urls) (auto split: option.splits)

lemma sorted_list_of_three:
  fixes a b c :: string
  assumes "a < b" "b < c"
  shows "sorted_list_of_set {a, b, c} = [a, b, c]"
proof -
  have "sorted_wrt (<) [a, b, c]"
    using assms by auto
  moreover have "set [a, b, c] = {a, b, c}"
    by simp
  ultimately show ?thesis
    by (metis sorted_list_of_set.idem_if_sorted_distinct strict_sorted_iff)
qed

text \<open>
  C6: in link-harvest mode (4electrolineas.py), when the base page is fetched and a
  pagination element is located, the pages to scrape are exactly the base URL together
  with the \<open>href\<close> of every page link inside that element, without duplicates and in
  sorted order; when no pagination element is present the pages are just the base URL.
  With links to pages 2 and 3 and the base page, where the base URL sorts before page 2
  and page 2 before page 3, the result is base, page 2, page 3 in that order.
\<close>

theorem discover_pages_harvest:
  "(pagination_nav soup = Inr (Some nav) \<longrightarrow>
      (\<exists>urls. discover_pages base_url (Inr soup) = Inr urls
         \<and> set urls = insert base_url
               {href. \<exists>a\<in>set (select nav ''a.page-numbers''). attrs a ''href'' = Some href}
         \<and> sorted urls \<and> distinct urls))
   \<and> (pagination_nav soup = Inr None \<longrightarrow> discover_pages base_url (Inr soup) = Inr [base_url])
   \<and> (pagination_nav soup = Inr (Some nav)
        \<and> insert base_url
             {href. \<exists>a\<in>set (select nav ''a.page-numbers''). attrs a ''href'' = Some href}
           = {base_url, page2, page3}
        \<and> base_url < page2 \<and> page2 < page3 \<longrightarrow>
      discover_pages base_url (Inr soup) = Inr [base_url, page2, page3])"
proof (intro conjI impI)
  assume nav: "pagination_nav soup = Inr (Some nav)"
  let ?S = "add_links (select nav ''a.page-numbers'') {base_url}"
  have fin: "finite ?S"
    by (rule finite_add_links) simp
  have eq: "?S = insert base_url
      {href. \<exists>a\<in>set (select nav ''a.page-numbers''). attrs a ''href'' = Some href}"
    by (simp add: add_links_set)
  have "discover_pages base_url (Inr soup) = Inr (sorted_list_of_set ?S)"
    by (simp add: discover_pages_def nav)
  moreover have "set (sorted_list_of_set ?S) = ?S"
    using fin by simp
  ultimately show "\<exists>urls. discover_pages base_url (Inr soup) = Inr urls
         \<and> set urls = insert base_url
               {href. \<exists>a\<in>set (select nav ''a.page-numbers''). attrs a ''href'' = Some href}
         \<and> sorted urls \<and> distinct urls"
    using eq by simp
next
  assume "pagination_nav soup = Inr None"
  then show "discover_pages base_url (Inr soup) = Inr [base_url]"
    by (simp add: discover_pages_def)
next
  assume a: "pagination_nav soup = Inr (Some nav)
        \<and> insert base_url
             {href. \<exists>a\<in>set (select nav ''a.page-numbers''). attrs a ''href'' = Some href}
           = {base_url, page2, page3}
        \<and> base_url < page2 \<and> page2 < page3"
  then have "add_links (select nav ''a.page-numbers'') {base_url} = {base_url, page2, page3}"
    by (simp add: add_links_set)
  then have "discover_pages base_url (Inr soup) = Inr (sorted_list_of_set {base_url, page2, page3})"
    using a by (simp add: discover_pages_def)
  then show "discover_pages base_url (Inr soup) = Inr [base_url, page2, page3]"
    using a sorted_list_of_three by simp
qed

theorem discover_pages_harvest_witness:
  "pagination_nav category_page = Inr (Some category_nav)
   \<and> pagination_nav empty_page = Inr None
   \<and> discover_pages ''https://shop.example/cables/'' (Inr category_page) =
       Inr [''https://shop.example/cables/'', ''https://shop.example/cables/page/2/'',
            ''https://shop.example/cables/page/3/'']
   \<and> discover_pages ''https://shop.example/cables/'' (Inr empty_page) =
       Inr [''https://shop.example/cables/'']"
proof -
  let ?b = "''https://shop.example/cables/''"
  let ?p2 = "''https://shop.example/cables/page/2/''"
  let ?p3 = "''https://shop.example/cables/page/3/''"
  have nav: "pagination_nav category_page = Inr (Some category_nav)"
    by (simp add: pagination_nav_def category_page_def)
  have none: "pagination_nav empty_page = Inr None"
    by (simp add: pagination_nav_def empty_page_def leaf_def)
  have links: "insert ?b {href. \<exists>a\<in>set (select category_nav ''a.page-numbers'').
                   attrs a ''href'' = Some href} = {?b, ?p2, ?p3}"
    by (auto simp: category_nav_def anchor_def leaf_def)
  have ord: "?b < ?p2" "?p2 < ?p3"
    by code_simp+
  note t = discover_pages_harvest[where soup = category_page and nav = category_nav
      and base_url = ?b and ?page2.0 = ?p2 and ?page3.0 = ?p3]
  note u = discover_pages_harvest[where soup = empty_page and base_url = ?b]
  have r1: "discover_pages ?b (Inr category_page) = Inr [?b, ?p2, ?p3]"
    using t nav links ord by blast
  have r2: "discover_pages ?b (Inr empty_page) = Inr [?b]"
    using u none by blast
  show ?thesis
    using nav none r1 r2 by simp
qed

section \<open>Termination of the scroll loops\<close>

lemma casa_scroll_loop_returns_only_if_height_settles:
  assumes "casa_scroll_loop height k last_height = Some r"
  shows "\<not> ((\<forall>j. height j < height (Suc j)) \<and> last_height < height k)"
proof (rule casa_scroll_loop.raw_induct[OF _ assms])
  fix f :: "(nat \<Rightarrow> int) \<Rightarrow> nat \<Rightarrow> int \<Rightarrow> nat option" and h k l r
  assume IH: "\<And>h k l r. f h k l = Some r \<Longrightarrow> \<not> ((\<forall>j. h j < h (Suc j)) \<and> l < h k)"
  assume step: "(let new_height = h k in
                 if new_height = l then Some k else f h (Suc k) new_height) = Some r"
  show "\<not> ((\<forall>j. h j < h (Suc j)) \<and> l < h k)"
  proof
    assume a: "(\<forall>j. h j < h (Suc j)) \<and> l < h k"
    then have "h k \<noteq> l" by simp
    with step have "f h (Suc k) (h k) = Some r"
      by (simp add: Let_def)
    from IH[OF this] a show False by simp
  qed
qed

lemma casa_scroll_never_returns_on_growing_page:
  assumes "\<And>j. height j < height (Suc j)"
  shows "casa_scroll height = None"
proof (cases "casa_scroll height")
  case None
  then show ?thesis .
next
  case (Some r)
  then have "casa_scroll_loop height 1 (height 0) = Some r"
    by (simp add: casa_scroll_def)
  from casa_scroll_loop_returns_only_if_height_settles[OF this] assms
  show ?thesis by simp
qed

lemma scroll_loop_bounded:
  "scroll_attempts \<le> 15 \<Longrightarrow>
   fst (scroll_loop height scroll_attempts c last_height) \<le> 15
   \<and> snd (scroll_loop height scroll_attempts c last_height) \<le> 15"
proof (induction height scroll_attempts c last_height rule: scroll_loop.induct)
  case (1 height scroll_attempts c last_height)
  note unfold = scroll_loop.simps[of height scroll_attempts c last_height]
  show ?case
  proof (cases "scroll_attempts < 15")
    case False
    then have "scroll_loop height scroll_attempts c last_height = (scroll_attempts, scroll_attempts)"
      by (subst unfold) simp
    with "1.prems" show ?thesis by simp
  next
    case True
    then have le: "Suc scroll_attempts \<le> 15" by simp
    show ?thesis
    proof (cases "height (Suc scroll_attempts) = last_height")
      case same: True
      show ?thesis
      proof (cases "c + 1 \<ge> 2")
        case True
        with \<open>scroll_attempts < 15\<close> same
        have "scroll_loop height scroll_attempts c last_height =
              (scroll_attempts, Suc scroll_attempts)"
          by (subst unfold) simp
        with le "1.prems" show ?thesis by simp
      next
        case False
        with \<open>scroll_attempts < 15\<close> same
        have "scroll_loop height scroll_attempts c last_height =
              scroll_loop height (Suc scroll_attempts) (c + 1) (height (Suc scroll_attempts))"
          by (subst unfold) simp
        with "1.IH"(1)[OF \<open>scroll_attempts < 15\<close> refl same False le]
        show ?thesis by simp
      qed
    next
      case False
      with \<open>scroll_attempts < 15\<close>
      have "scroll_loop height scroll_attempts c last_height =
            scroll_loop height (Suc scroll_attempts) 0 (height (Suc scroll_attempts))"
        by (subst unfold) simp
      with "1.IH"(2)[OF \<open>scroll_attempts < 15\<close> refl False le]
      show ?thesis by simp
    qed
  qed
qed

text \<open>The sibling loop of 3iluminar.py always returns, after at most 15 scrolls, and
  logs its warning exactly when the 15 attempts are used up.\<close>

lemma scroll_page_fully_bounded:
  "scrolls (scroll_page_fully height) \<le> 15"
  using scroll_loop_bounded[of 0 height 0 "height 0"]
  by (cases "scroll_loop height 0 0 (height 0)") (simp add: scroll_page_fully_def)

lemma scroll_page_fully_examples:
  "scroll_page_fully settling_page = \<lparr>scrolls = 4, warned = False\<rparr>"
  "scroll_page_fully endless_feed = \<lparr>scrolls = 15, warned = True\<rparr>"
  "casa_scroll settling_page = Some 3"
  by code_simp+

text \<open>
  C3: every scroll loop of a dynamic fetch terminates, at the latest after the bounded
  number of attempts. The loop of 2casadelaslamparas.py has no attempt bound: on
  \<open>endless_feed\<close>, a page that is higher at every measurement, it never returns (the
  bounded loop of 3iluminar.py stops on the same page after 15 scrolls with its warning).
\<close>

theorem casa_scroll_diverges_on_endless_feed:
  "casa_scroll endless_feed = None
   \<and> scroll_page_fully endless_feed = \<lparr>scrolls = 15, warned = True\<rparr>"
proof
  show "casa_scroll endless_feed = None"
    by (rule casa_scroll_never_returns_on_growing_page) (simp add: endless_feed_def)
  show "scroll_page_fully endless_feed = \<lparr>scrolls = 15, warned = True\<rparr>"
    by code_simp
qed

section \<open>A persistence failure in one source\<close>












section \<open>Retries of the static fetch\<close>

lemma send_requests_bound:
  "fst (send forcelist server k r) \<le> Suc (k + r) \<and> Suc k \<le> fst (send forcelist server k r)"
proof (induction r arbitrary: k)
  case 0
  show ?case by simp
next
  case (Suc r)
  show ?case
    using Suc.IH[of "Suc k"] by simp
qed

lemma send_persistent_failure:
  "(\<forall>j. server j \<in> set forcelist) \<Longrightarrow> send forcelist server k r = (Suc (k + r), None)"
  by (induction r arbitrary: k) simp_all

lemma send_not_retried:
  "server k \<notin> set forcelist \<Longrightarrow> send forcelist server k r = (Suc k, Some (server k))"
  by (cases r) simp_all

lemma static_fetch_requests:
  "fst (static_fetch strategy server) = fst (send (status_forcelist strategy) server 0 (total strategy))"
  by (simp add: static_fetch_def split: prod.splits option.splits)

text \<open>The rows a page adds do not depend on the rows collected before it.\<close>

lemma electropunto_loop_append:
  "electropunto_loop execute now k acc ds = acc @ electropunto_loop execute now k [] ds"
proof (induction ds arbitrary: k acc)
  case Nil
  show ?case by simp
next
  case (Cons d ds)
  show ?case
  proof (cases "electropunto_try_item execute (now k) d")
    case (Inl e)
    then show ?thesis using Cons.IH[of "Suc k" acc] by simp
  next
    case (Inr r)
    then show ?thesis
      using Cons.IH[of "Suc k" "acc @ [r]"] Cons.IH[of "Suc k" "[r]"] by simp
  qed
qed

lemma electropunto_page_append:
  "electropunto_page execute now acc soup = acc @ electropunto_page execute now [] soup"
  using electropunto_loop_append[of execute now 0 acc]
  by (simp add: electropunto_page_def Let_def)

lemma electromisiones_loop_append:
  "fst (electromisiones_loop now k acc ds) = acc @ fst (electromisiones_loop now k [] ds)"
proof (induction ds arbitrary: k acc)
  case Nil
  show ?case by simp
next
  case (Cons d ds)
  show ?case
  proof (cases "electromisiones_item (now k) d")
    case (Inl e)
    then show ?thesis by simp
  next
    case (Inr r)
    then show ?thesis
      using Cons.IH[of "Suc k" "acc @ [r]"] Cons.IH[of "Suc k" "[r]"] by simp
  qed
qed

lemma electromisiones_page_append:
  "fst (electromisiones_page now acc soup) = acc @ fst (electromisiones_page now [] soup)"
  using electromisiones_loop_append[of now 0 acc]
  by (simp add: electromisiones_page_def Let_def)

lemma electrolineas_loop_append:
  "fst (electrolineas_loop now k acc ds) = acc @ fst (electrolineas_loop now k [] ds)"
proof (induction ds arbitrary: k acc)
  case Nil
  show ?case by simp
next
  case (Cons d ds)
  show ?case
  proof (cases "electrolineas_item (now k) d")
    case (Inl e)
    then show ?thesis by simp
  next
    case (Inr r)
    then show ?thesis
      using Cons.IH[of "Suc k" "acc @ [r]"] Cons.IH[of "Suc k" "[r]"] by simp
  qed
qed

lemma electrolineas_page_append:
  "fst (electrolineas_page now acc soup) = acc @ fst (electrolineas_page now [] soup)"
  using electrolineas_loop_append[of now 0 acc]
  by (simp add: electrolineas_page_def Let_def)

text \<open>The rows a loop over URLs collects: those of every URL whose fetch succeeded, in
  order; a URL whose fetch failed adds none and does not stop the loop.\<close>

lemma electropunto_urls_rows:
  "electropunto_urls execute site page now urls inserted =
     inserted @
     concat (map (\<lambda>u. if isl (snd (static_fetch no_retries (site u))) then []
                       else electropunto_page execute (now u) [] (page u)) urls)"
proof (induction urls arbitrary: inserted)
  case Nil
  show ?case by simp
next
  case (Cons u urls)
  show ?case
  proof (cases "snd (static_fetch no_retries (site u))")
    case (Inl e)
    then show ?thesis using Cons.IH[of inserted] by simp
  next
    case (Inr status)
    then show ?thesis
      using Cons.IH[of "electropunto_page execute (now u) inserted (page u)"]
        electropunto_page_append[of execute "now u" inserted "page u"]
      by simp
  qed
qed

lemma electromisiones_urls_rows:
  "electromisiones_urls site page now urls acc =
     acc @
     concat (map (\<lambda>u. if isl (snd (static_fetch create_session_with_retries (site u))) then []
                       else fst (electromisiones_page (now u) [] (page u))) urls)"
proof (induction urls arbitrary: acc)
  case Nil
  show ?case by simp
next
  case (Cons u urls)
  show ?case
  proof (cases "snd (static_fetch create_session_with_retries (site u))")
    case (Inl e)
    then show ?thesis using Cons.IH[of acc] by simp
  next
    case (Inr status)
    then show ?thesis
      using Cons.IH[of "fst (electromisiones_page (now u) acc (page u))"]
        electromisiones_page_append[of "now u" acc "page u"]
      by simp
  qed
qed

lemma electrolineas_pages_rows:
  "electrolineas_pages site page now urls acc =
     acc @
     concat (map (\<lambda>u. if isl (snd (static_fetch create_session_with_retries (site u))) then []
                       else fst (electrolineas_page (now u) [] (page u))) urls)"
proof (induction urls arbitrary: acc)
  case Nil
  show ?case by simp
next
  case (Cons u urls)
  show ?case
  proof (cases "snd (static_fetch create_session_with_retries (site u))")
    case (Inl e)
    then show ?thesis using Cons.IH[of acc] by simp
  next
    case (Inr status)
    then show ?thesis
      using Cons.IH[of "fst (electrolineas_page (now u) acc (page u))"]
        electrolineas_page_append[of "now u" acc "page u"]
      by simp
  qed
qed

lemma electrolineas_base_urls_rows:
  "electrolineas_base_urls site page now base_urls acc =
     acc @
     concat (map (\<lambda>b. if isl (snd (static_fetch create_session_with_retries (site b))) then []
                       else (case discover_pages b (Inr (page b)) of
                               Inl e \<Rightarrow> []
                             | Inr page_urls \<Rightarrow> electrolineas_pages site page now page_urls []))
              base_urls)"
proof (induction base_urls arbitrary: acc)
  case Nil
  show ?case by simp
next
  case (Cons b base_urls)
  show ?case
  proof (cases "snd (static_fetch create_session_with_retries (site b))")
    case (Inl e)
    then show ?thesis using Cons.IH[of acc] by simp
  next
    case fetched: (Inr status)
    show ?thesis
    proof (cases "discover_pages b (Inr (page b))")
      case (Inl e)
      with fetched show ?thesis using Cons.IH[of acc] by simp
    next
      case (Inr page_urls)
      have "electrolineas_pages site page now page_urls acc =
            acc @ electrolineas_pages site page now page_urls []"
        using electrolineas_pages_rows[of site page now page_urls acc]
          electrolineas_pages_rows[of site page now page_urls "[]"] by simp
      with fetched Inr show ?thesis
        using Cons.IH[of "electrolineas_pages site page now page_urls acc"] by simp
    qed
  qed
qed

text \<open>
  C4: with the retry strategy the scrapers configure (5 retries, on the statuses 500, 502,
  503, 504), a static fetch of a URL whose server keeps answering one of these statuses
  makes exactly 5 retries, never more, and then surfaces a fetch failure; no fetch makes
  more than 5 retries; a fetch answered with a 4xx status makes no retry and surfaces the
  failure at once (also in 1electropunto.py, which fetches without any retry strategy).
  After a failed fetch the caller skips that page and continues: in the URL loops of
  1electropunto.py, 4electrolineas.py and 5electromisiones.py the rows collected are
  those of every URL whose fetch succeeded, in order, and a URL whose fetch failed adds
  none; in 4electrolineas.py a base URL whose fetch failed is skipped with all its pages.
\<close>

theorem static_fetch_retry_policy:
  "((\<forall>k. server k \<in> {500, 502, 503, 504}) \<longrightarrow>
      retries (static_fetch create_session_with_retries server) = 5
      \<and> retries (static_fetch create_session_with_retries server)
          \<le> total create_session_with_retries
      \<and> snd (static_fetch create_session_with_retries server) = Inl RetryError)
   \<and> retries (static_fetch create_session_with_retries server) \<le> 5
   \<and> (400 \<le> server 0 \<and> server 0 < 500 \<longrightarrow>
      retries (static_fetch create_session_with_retries server) = 0
      \<and> snd (static_fetch create_session_with_retries server) = Inl (HTTPError (server 0))
      \<and> retries (static_fetch no_retries server) = 0
      \<and> snd (static_fetch no_retries server) = Inl (HTTPError (server 0)))
   \<and> electropunto_urls execute site page now urls acc =
       acc @
       concat (map (\<lambda>u. if isl (snd (static_fetch no_retries (site u))) then []
                         else electropunto_page execute (now u) [] (page u)) urls)
   \<and> electromisiones_urls site page now urls acc =
       acc @
       concat (map (\<lambda>u. if isl (snd (static_fetch create_session_with_retries (site u))) then []
                         else fst (electromisiones_page (now u) [] (page u))) urls)
   \<and> electrolineas_pages site page now urls acc =
       acc @
       concat (map (\<lambda>u. if isl (snd (static_fetch create_session_with_retries (site u))) then []
                         else fst (electrolineas_page (now u) [] (page u))) urls)
   \<and> electrolineas_base_urls site page now urls acc =
       acc @
       concat (map (\<lambda>b. if isl (snd (static_fetch create_session_with_retries (site b))) then []
                         else (case discover_pages b (Inr (page b)) of
                                 Inl e \<Rightarrow> []
                               | Inr page_urls \<Rightarrow> electrolineas_pages site page now page_urls []))
                urls)"
proof (intro conjI impI)
  assume a: "\<forall>k. server k \<in> {500, 502, 503, 504}"
  then have "\<forall>j. server j \<in> set (status_forcelist create_session_with_retries)"
    by (simp add: create_session_with_retries_def)
  from send_persistent_failure[where server = server and k = 0
      and r = "total create_session_with_retries", OF this]
  have r: "static_fetch create_session_with_retries server = (6, Inl RetryError)"
    by (simp add: static_fetch_def create_session_with_retries_def)
  show "retries (static_fetch create_session_with_retries server) = 5"
    by (simp add: r retries_def)
  show "retries (static_fetch create_session_with_retries server)
          \<le> total create_session_with_retries"
    unfolding r by (simp add: retries_def create_session_with_retries_def)
  show "snd (static_fetch create_session_with_retries server) = Inl RetryError"
    by (simp add: r)
next
  have "fst (static_fetch create_session_with_retries server) \<le>
        Suc (0 + total create_session_with_retries)"
    unfolding static_fetch_requests
    using send_requests_bound[of "status_forcelist create_session_with_retries" server 0
        "total create_session_with_retries"] by blast
  moreover have "total create_session_with_retries = 5"
    by (simp add: create_session_with_retries_def)
  ultimately show "retries (static_fetch create_session_with_retries server) \<le> 5"
    by (simp add: retries_def)
next
  assume a: "400 \<le> server 0 \<and> server 0 < 500"
  then have "server 0 \<notin> set (status_forcelist create_session_with_retries)"
    by (auto simp: create_session_with_retries_def)
  from send_not_retried[where server = server and k = 0
      and r = "total create_session_with_retries", OF this] a
  have r: "static_fetch create_session_with_retries server = (1, Inl (HTTPError (server 0)))"
    by (simp add: static_fetch_def)
  have "server 0 \<notin> set (status_forcelist no_retries)"
    by (simp add: no_retries_def)
  from send_not_retried[where server = server and k = 0 and r = "total no_retries", OF this] a
  have n: "static_fetch no_retries server = (1, Inl (HTTPError (server 0)))"
    by (simp add: static_fetch_def)
  show "retries (static_fetch create_session_with_retries server) = 0"
    by (simp add: r retries_def)
  show "snd (static_fetch create_session_with_retries server) = Inl (HTTPError (server 0))"
    by (simp add: r)
  show "retries (static_fetch no_retries server) = 0"
    by (simp add: n retries_def)
  show "snd (static_fetch no_retries server) = Inl (HTTPError (server 0))"
    by (simp add: n)
next
  show "electropunto_urls execute site page now urls acc =
       acc @
       concat (map (\<lambda>u. if isl (snd (static_fetch no_retries (site u))) then []
                         else electropunto_page execute (now u) [] (page u)) urls)"
    by (rule electropunto_urls_rows)
  show "electromisiones_urls site page now urls acc =
       acc @
       concat (map (\<lambda>u. if isl (snd (static_fetch create_session_with_retries (site u))) then []
                         else fst (electromisiones_page (now u) [] (page u))) urls)"
    by (rule electromisiones_urls_rows)
  show "electrolineas_pages site page now urls acc =
       acc @
       concat (map (\<lambda>u. if isl (snd (static_fetch create_session_with_retries (site u))) then []
                         else fst (electrolineas_page (now u) [] (page u))) urls)"
    by (rule electrolineas_pages_rows)
  show "electrolineas_base_urls site page now urls acc =
       acc @
       concat (map (\<lambda>b. if isl (snd (static_fetch create_session_with_retries (site b))) then []
                         else (case discover_pages b (Inr (page b)) of
                                 Inl e \<Rightarrow> []
                               | Inr page_urls \<Rightarrow> electrolineas_pages site page now page_urls []))
                urls)"
    by (rule electrolineas_base_urls_rows)
qed

theorem static_fetch_retry_policy_witness:
  "(\<forall>k. always_503 k \<in> {500, 502, 503, 504})
   \<and> 400 \<le> always_404 0 \<and> always_404 0 < 500
   \<and> static_fetch create_session_with_retries always_503 = (6, Inl RetryError)
   \<and> retries (static_fetch create_session_with_retries always_503) = 5
   \<and> static_fetch create_session_with_retries always_404 = (1, Inl (HTTPError 404))
   \<and> retries (static_fetch create_session_with_retries always_404) = 0
   \<and> retries (static_fetch no_retries always_404) = 0
   \<and> electropunto_urls (\<lambda>_. None) punto_site (\<lambda>_. punto_page) (\<lambda>_. today)
        [''https://shop.example/a'', ''https://shop.example/d''] [] =
      [(''04/11/2026'', ''Cable 2x1.5'', ''$100'')]
   \<and> electromisiones_urls example_site (\<lambda>_. three_products_page) (\<lambda>_. today) example_urls [] =
      [(''04/11/2026'', ''Cable 2x1.5'', ''$ 100''),
       (''04/11/2026'', ''Caja estanca'', ''No disponible''),
       (''04/11/2026'', ''Cable 2x1.5'', ''$ 100'')]
   \<and> electrolineas_base_urls harvest_site harvest_page (\<lambda>_. today)
        [''https://shop.example/down/'', ''https://shop.example/cables/''] [] =
      [(''04/11/2026'', ''No disponible'', ''No disponible''),
       (''04/11/2026'', ''No disponible'', ''No disponible''),
       (''04/11/2026'', ''No disponible'', ''No disponible'')]"
proof -
  have h503: "\<forall>k. always_503 k \<in> {500, 502, 503, 504}"
    by (simp add: always_503_def)
  have h404: "400 \<le> always_404 0 \<and> always_404 0 < 500"
    by (simp add: always_404_def)
  have f503: "static_fetch create_session_with_retries always_503 = (6, Inl RetryError)"
    by code_simp
  have f404: "static_fetch create_session_with_retries always_404 = (1, Inl (HTTPError 404))"
    by code_simp
  note t503 = static_fetch_retry_policy[where server = always_503,
      THEN conjunct1, THEN mp, OF h503]
  note t404 = static_fetch_retry_policy[where server = always_404,
      THEN conjunct2, THEN conjunct2, THEN conjunct1, THEN mp, OF h404]
  note t1 = static_fetch_retry_policy[where execute = "\<lambda>_. None" and site = punto_site
      and page = "\<lambda>_. punto_page" and now = "\<lambda>_. today"
      and urls = "[''https://shop.example/a'', ''https://shop.example/d'']" and acc = "[]",
      THEN conjunct2, THEN conjunct2, THEN conjunct2, THEN conjunct1]
  note t5 = static_fetch_retry_policy[where site = example_site
      and page = "\<lambda>_. three_products_page" and now = "\<lambda>_. today"
      and urls = example_urls and acc = "[]",
      THEN conjunct2, THEN conjunct2, THEN conjunct2, THEN conjunct2, THEN conjunct1]
  note t4 = static_fetch_retry_policy[where site = harvest_site
      and page = harvest_page and now = "\<lambda>_. today"
      and urls = "[''https://shop.example/down/'', ''https://shop.example/cables/'']"
      and acc = "[]",
      THEN conjunct2, THEN conjunct2, THEN conjunct2, THEN conjunct2, THEN conjunct2,
      THEN conjunct2]
  have rows1: "[] @ concat (map (\<lambda>u. if isl (snd (static_fetch no_retries (punto_site u))) then []
                         else electropunto_page (\<lambda>_. None) today [] punto_page)
                  [''https://shop.example/a'', ''https://shop.example/d'']) =
      [(''04/11/2026'', ''Cable 2x1.5'', ''$100'')]"
    by code_simp
  have rows5: "[] @ concat (map (\<lambda>u. if isl (snd (static_fetch create_session_with_retries
                                              (example_site u))) then []
                         else fst (electromisiones_page today [] three_products_page))
                  example_urls) =
      [(''04/11/2026'', ''Cable 2x1.5'', ''$ 100''),
       (''04/11/2026'', ''Caja estanca'', ''No disponible''),
       (''04/11/2026'', ''Cable 2x1.5'', ''$ 100'')]"
    by code_simp
  have rows4: "[] @ concat (map (\<lambda>b. if isl (snd (static_fetch create_session_with_retries
                                              (harvest_site b))) then []
                         else (case discover_pages b (Inr (harvest_page b)) of
                                 Inl e \<Rightarrow> []
                               | Inr page_urls \<Rightarrow>
                                   electrolineas_pages harvest_site harvest_page (\<lambda>_. today)
                                     page_urls []))
                  [''https://shop.example/down/'', ''https://shop.example/cables/'']) =
      [(''04/11/2026'', ''No disponible'', ''No disponible''),
       (''04/11/2026'', ''No disponible'', ''No disponible''),
       (''04/11/2026'', ''No disponible'', ''No disponible'')]"
    by code_simp
  show ?thesis
    using h503 h404 f503 f404 t503 t404 t1[unfolded rows1] t5[unfolded rows5] t4[unfolded rows4]
    by simp
qed

end
